theory Spec2Isabelle
  imports Complex_Main
begin

section \<open>The Augmented Dickey-Fuller test of \<open>adf.go\<close>\<close>

text \<open>
  The development embeds \<open>src/adf.go\<close>. A Go \<open>float64\<close> is modelled by the real
  number it denotes, and every floating-point operation of the source rounds its
  exact result to the nearest double (section \<open>float64\<close> below). A Go
  \<open>int\<close> is modelled as an unbounded integer: the source's integer arithmetic can
  wrap only in \<open>lag + 1\<close> and \<open>len(series) - lag + 1\<close>, for a lag at the ends of the
  range of \<open>int\<close>, and there the allocation of the lag matrix panics with a negative
  dimension with or without the wrap. A slice is a list whose capacity equals its
  length (as \<open>NewADF\<close> allocates it). Every panic of the Go runtime and of the matrix
  library is a value of the type \<open>error\<close>.
\<close>

datatype error =
    MakeSliceLen            \<comment> \<open>runtime: \<open>make([]T, n)\<close> with \<open>n < 0\<close>\<close>
  | IndexOutOfRange         \<comment> \<open>runtime: \<open>s[i]\<close> outside \<open>0 \<le> i < len(s)\<close>\<close>
  | SliceBoundsOutOfRange   \<comment> \<open>runtime: \<open>s[lo:hi]\<close> outside \<open>0 \<le> lo \<le> hi \<le> cap(s)\<close>\<close>
  | ErrZeroLength           \<comment> \<open>mat: zero length in matrix dimension\<close>
  | ErrNegativeDimension    \<comment> \<open>mat: negative dimension\<close>
  | ErrRowAccess            \<comment> \<open>mat: row index out of range\<close>
  | ErrColAccess            \<comment> \<open>mat: column index out of range\<close>
  | ErrColLength            \<comment> \<open>mat: col length mismatch\<close>
  | ErrIndexOutOfRange      \<comment> \<open>mat: index out of range\<close>
  | ErrShape                \<comment> \<open>mat: dimension mismatch\<close>
  | SolverFailure           \<comment> \<open>a panic raised inside the ridge regression\<close>

text \<open>Sequencing of fallible steps: the first panic ends the computation.\<close>

definition bindE :: "error + 'a \<Rightarrow> ('a \<Rightarrow> error + 'b) \<Rightarrow> error + 'b" where
  "bindE m f = (case m of Inl e \<Rightarrow> Inl e | Inr x \<Rightarrow> f x)"

subsection \<open>\<open>float64\<close>\<close>

text \<open>
  A finite double is \<open>m * 2 ^ e\<close> with \<open>|m| < 2 ^ 53\<close> and \<open>-1074 \<le> e \<le> 971\<close>. It is
  modelled by that real number. IEEE 754 arithmetic, which Go's \<open>float64\<close> follows,
  computes the exact result and rounds it to the nearest double, a tie going to the
  double with the even significand: \<open>float64_round\<close>. The exponent of a nonzero \<open>x\<close>
  is the \<open>e\<close> with \<open>2 ^ e \<le> |x| < 2 ^ (e + 1)\<close>, and not less than \<open>-1022\<close> (below it
  the doubles are subnormal and equally spaced); the doubles of that exponent are
  the multiples of \<open>2 ^ (e - 52)\<close>.

  Outside the model: infinities and NaN (a result of magnitude \<open>2 ^ 1024\<close> or more
  and a division by zero have no faithful value here: the quotient \<open>x / 0\<close> is \<open>0\<close>)
  and the sign of zero. A decimal constant of the source (\<open>0.0001\<close>, \<open>-3.45\<close>) is
  taken at its decimal value.
\<close>

type_synonym float64 = real

definition round_even :: "real \<Rightarrow> int" where
  \<comment> \<open>the nearest integer, the even one at a tie\<close>
  "round_even r =
     (let f = \<lfloor>r\<rfloor>; d = r - of_int f in
      if d < 1 / 2 then f else if 1 / 2 < d then f + 1 else if even f then f else f + 1)"

primrec exponent_down :: "real \<Rightarrow> nat \<Rightarrow> int" where
  \<comment> \<open>the largest \<open>e\<close> from \<open>-1021\<close> to \<open>k - 1022\<close> with \<open>2 ^ e \<le> |x|\<close>, else \<open>-1022\<close>\<close>
  "exponent_down x 0 = - 1022"
| "exponent_down x (Suc k) =
     (if 2 powi (int k - 1021) \<le> \<bar>x\<bar> then int k - 1021 else exponent_down x k)"

definition float64_exponent :: "real \<Rightarrow> int" where
  "float64_exponent x = exponent_down x 2045"

definition float64_round :: "real \<Rightarrow> float64" where
  "float64_round x =
     (let u = 2 powi (float64_exponent x - 52) in of_int (round_even (x / u)) * u)"

definition is_float64 :: "real \<Rightarrow> bool" where
  "is_float64 x = (float64_round x = x)"

definition float64_add :: "float64 \<Rightarrow> float64 \<Rightarrow> float64" where
  "float64_add a b = float64_round (a + b)"

definition float64_sub :: "float64 \<Rightarrow> float64 \<Rightarrow> float64" where
  "float64_sub a b = float64_round (a - b)"

definition float64_div :: "float64 \<Rightarrow> float64 \<Rightarrow> float64" where
  "float64_div a b = float64_round (a / b)"

definition float64_of_int :: "int \<Rightarrow> float64" where
  \<comment> \<open>the conversion \<open>float64(n)\<close>\<close>
  "float64_of_int n = float64_round (of_int n)"

subsection \<open>Go slices\<close>

definition make_slice :: "int \<Rightarrow> error + float64 list" where
  "make_slice n = (if n < 0 then Inl MakeSliceLen else Inr (replicate (nat n) 0))"

definition go_index :: "'a list \<Rightarrow> int \<Rightarrow> error + 'a" where
  "go_index s i = (if 0 \<le> i \<and> i < int (length s) then Inr (s ! nat i) else Inl IndexOutOfRange)"

definition go_store :: "'a list \<Rightarrow> int \<Rightarrow> 'a \<Rightarrow> error + 'a list" where
  "go_store s i v = (if 0 \<le> i \<and> i < int (length s) then Inr (s[nat i := v]) else Inl IndexOutOfRange)"

definition go_slice :: "'a list \<Rightarrow> int \<Rightarrow> int \<Rightarrow> error + 'a list" where
  "go_slice s lo hi =
     (if 0 \<le> lo \<and> lo \<le> hi \<and> hi \<le> int (length s)
      then Inr (take (nat (hi - lo)) (drop (nat lo) s))
      else Inl SliceBoundsOutOfRange)"

subsection \<open>\<open>diff\<close>\<close>

text \<open>
  \<^verbatim>\<open>
  func diff(x []float64) []float64 {
      y := make([]float64, len(x)-1)
      for i := 0; i < len(x)-1; i++ {
          y[i] = x[i+1] - x[i]
      }
      return y
  }
  \<close>
\<close>

function diff_loop :: "float64 list \<Rightarrow> float64 list \<Rightarrow> int \<Rightarrow> error + float64 list" where
  "diff_loop x y i =
     (if i < int (length x) - 1 then
        (case go_index x (i + 1) of Inl e \<Rightarrow> Inl e | Inr a \<Rightarrow>
         (case go_index x i of Inl e \<Rightarrow> Inl e | Inr b \<Rightarrow>
          (case go_store y i (float64_sub a b) of Inl e \<Rightarrow> Inl e | Inr y' \<Rightarrow>
             diff_loop x y' (i + 1))))
      else Inr y)"
  by pat_completeness auto
termination
  by (relation "measure (\<lambda>(x, y, i). nat (int (length x) - 1 - i))") auto

declare diff_loop.simps [simp del]

definition diff :: "float64 list \<Rightarrow> error + float64 list" where
  "diff x = bindE (make_slice (int (length x) - 1)) (\<lambda>y. diff_loop x y 0)"

subsection \<open>The matrix library\<close>

text \<open>
  \<open>gonum.org/v1/gonum/mat\<close> is not part of the repository. Its dense matrix is
  modelled by its dimensions and its rows, \<open>Elems m ! i ! j\<close> being \<open>At(i, j)\<close>;
  each operation below follows the library's documented behaviour, its panics
  included (a dimension of zero is refused, as in the current releases). A matrix
  returned by \<open>Slice\<close> shares its storage with the receiver;
  \<open>Run\<close> only reads through the view, so a copy of the entries models it.
\<close>

record Dense =
  Rows :: int
  Cols :: int
  Elems :: "float64 list list"

definition mat_NewDense :: "int \<Rightarrow> int \<Rightarrow> error + Dense" where
  \<comment> \<open>\<open>mat.NewDense(r, c, nil)\<close>: a zero matrix; both dimensions must be positive\<close>
  "mat_NewDense r c =
     (if r \<le> 0 \<or> c \<le> 0 then
        (if r = 0 \<or> c = 0 then Inl ErrZeroLength else Inl ErrNegativeDimension)
      else Inr \<lparr>Rows = r, Cols = c, Elems = replicate (nat r) (replicate (nat c) 0)\<rparr>)"

definition dense_Dims :: "Dense \<Rightarrow> int \<times> int" where
  "dense_Dims m = (Rows m, Cols m)"

definition dense_At :: "Dense \<Rightarrow> int \<Rightarrow> int \<Rightarrow> error + float64" where
  "dense_At m i j =
     (if i < 0 \<or> Rows m \<le> i then Inl ErrRowAccess
      else if j < 0 \<or> Cols m \<le> j then Inl ErrColAccess
      else Inr (Elems m ! nat i ! nat j))"

definition dense_Set :: "Dense \<Rightarrow> int \<Rightarrow> int \<Rightarrow> float64 \<Rightarrow> error + Dense" where
  "dense_Set m i j v =
     (if i < 0 \<or> Rows m \<le> i then Inl ErrRowAccess
      else if j < 0 \<or> Cols m \<le> j then Inl ErrColAccess
      else Inr (m\<lparr>Elems := (Elems m)[nat i := (Elems m ! nat i)[nat j := v]]\<rparr>))"

definition mat_Col :: "Dense \<Rightarrow> int \<Rightarrow> error + float64 list" where
  \<comment> \<open>\<open>mat.Col(nil, j, a)\<close>: a fresh slice holding column \<open>j\<close>\<close>
  "mat_Col a j =
     (if j < 0 \<or> Cols a \<le> j then Inl ErrColAccess
      else Inr (map (\<lambda>i. Elems a ! i ! nat j) [0 ..< nat (Rows a)]))"

definition dense_SetCol :: "Dense \<Rightarrow> int \<Rightarrow> float64 list \<Rightarrow> error + Dense" where
  "dense_SetCol m j src =
     (if Cols m \<le> j \<or> j < 0 then Inl ErrColAccess
      else if int (length src) \<noteq> Rows m then Inl ErrColLength
      else Inr (m\<lparr>Elems := map (\<lambda>i. (Elems m ! i)[nat j := src ! i]) [0 ..< nat (Rows m)]\<rparr>))"

definition dense_Slice :: "Dense \<Rightarrow> int \<Rightarrow> int \<Rightarrow> int \<Rightarrow> int \<Rightarrow> error + Dense" where
  \<comment> \<open>\<open>m.Slice(i, k, j, l)\<close>: rows \<open>i..k-1\<close> and columns \<open>j..l-1\<close> of a matrix whose
      capacity is its dimensions\<close>
  "dense_Slice m i k j l =
     (if i < 0 \<or> Rows m \<le> i \<or> j < 0 \<or> Cols m \<le> j \<or> k < i \<or> Rows m < k \<or> l < j \<or> Cols m < l then
        (if k = i \<or> l = j then Inl ErrZeroLength else Inl ErrIndexOutOfRange)
      else Inr \<lparr>Rows = k - i, Cols = l - j,
                Elems = map (\<lambda>row. take (nat (l - j)) (drop (nat j) row))
                          (take (nat (k - i)) (drop (nat i) (Elems m)))\<rparr>)"

definition mat_NewVecDense :: "int \<Rightarrow> float64 list \<Rightarrow> error + float64 list" where
  \<comment> \<open>\<open>mat.NewVecDense(n, data)\<close> with \<open>data\<close> not nil\<close>
  "mat_NewVecDense n data =
     (if n \<le> 0 then (if n = 0 then Inl ErrZeroLength else Inl ErrNegativeDimension)
      else if int (length data) \<noteq> n then Inl ErrShape
      else Inr data)"

definition floats_Sum :: "float64 list \<Rightarrow> float64" where
  \<comment> \<open>\<open>floats.Sum(x)\<close>, in the order of its portable implementation:
      \<^verbatim>\<open>for _, v := range x { sum += v }\<close>, from \<open>sum = 0\<close>\<close>
  "floats_Sum x = foldl float64_add 0 x"

definition stat_Mean :: "float64 list \<Rightarrow> float64" where
  \<comment> \<open>\<open>stat.Mean(x, nil)\<close> of \<open>gonum.org/v1/gonum/stat\<close>:
      \<^verbatim>\<open>floats.Sum(x) / float64(len(x))\<close>\<close>
  "stat_Mean x = float64_div (floats_Sum x) (float64_of_int (int (length x)))"

subsection \<open>\<open>laggedMatrix\<close> and \<open>view\<close>\<close>

text \<open>
  \<^verbatim>\<open>
  func laggedMatrix(series []float64, lag int) *mat.Dense {
      r, c := len(series)-lag+1, lag
      m := mat.NewDense(r, c, nil)
      for j := 0; j < c; j++ {
          for i := 0; i < r; i++ {
              m.Set(i, j, series[lag-j-1+i])
          }
      }
      return m
  }
  \<close>
\<close>

function laggedMatrix_rows ::
  "float64 list \<Rightarrow> int \<Rightarrow> int \<Rightarrow> int \<Rightarrow> Dense \<Rightarrow> int \<Rightarrow> error + Dense" where
  "laggedMatrix_rows series lag r j m i =
     (if i < r then
        (case go_index series (lag - j - 1 + i) of Inl e \<Rightarrow> Inl e | Inr v \<Rightarrow>
         (case dense_Set m i j v of Inl e \<Rightarrow> Inl e | Inr m' \<Rightarrow>
            laggedMatrix_rows series lag r j m' (i + 1)))
      else Inr m)"
  by pat_completeness auto
termination
  by (relation "measure (\<lambda>(series, lag, r, j, m, i). nat (r - i))") auto

declare laggedMatrix_rows.simps [simp del]

function laggedMatrix_cols ::
  "float64 list \<Rightarrow> int \<Rightarrow> int \<Rightarrow> int \<Rightarrow> Dense \<Rightarrow> int \<Rightarrow> error + Dense" where
  "laggedMatrix_cols series lag r c m j =
     (if j < c then
        (case laggedMatrix_rows series lag r j m 0 of Inl e \<Rightarrow> Inl e | Inr m' \<Rightarrow>
           laggedMatrix_cols series lag r c m' (j + 1))
      else Inr m)"
  by pat_completeness auto
termination
  by (relation "measure (\<lambda>(series, lag, r, c, m, j). nat (c - j))") auto

declare laggedMatrix_cols.simps [simp del]

definition laggedMatrix :: "float64 list \<Rightarrow> int \<Rightarrow> error + Dense" where
  "laggedMatrix series lag =
     (let r = int (length series) - lag + 1; c = lag in
      bindE (mat_NewDense r c) (\<lambda>m. laggedMatrix_cols series lag r c m 0))"

definition view :: "Dense \<Rightarrow> int \<Rightarrow> int \<Rightarrow> int \<Rightarrow> int \<Rightarrow> error + Dense" where
  "view m i j r c = dense_Slice m i (i + r) j (j + c)"

subsection \<open>The test instance\<close>

definition LPenalty :: float64 where
  "LPenalty = 1 / 10000"

definition DefaultPValue :: float64 where
  "DefaultPValue = - (345 / 100)"

record ADF =
  Series :: "float64 list"
  PValueThreshold :: float64
  Statistic :: float64
  Lag :: int

text \<open>
  \<^verbatim>\<open>
  func NewADF(series []float64, pvalue float64, lag int) *ADF {
      if pvalue == 0 { pvalue = DefaultPValue }
      if lag < 0 { lag = int(math.Floor(math.Cbrt(float64(len(series))))) }
      newSeries := make([]float64, len(series))
      copy(newSeries, series)
      return &ADF{Series: newSeries, PValueThreshold: pvalue, Lag: lag}
  }
  \<close>
  The field \<open>Statistic\<close> is not set and has Go's zero value. The conversion
  \<open>float64(len(series))\<close> is exact for every length a slice can have, and
  \<open>math.Floor(math.Cbrt(x))\<close> is modelled by the floor of the real cube root.
\<close>

definition NewADF :: "float64 list \<Rightarrow> float64 \<Rightarrow> int \<Rightarrow> ADF" where
  "NewADF series pvalue lag =
     (let pvalue = (if pvalue = 0 then DefaultPValue else pvalue);
          lag = (if lag < 0 then \<lfloor>root 3 (real (length series))\<rfloor> else lag);
          newSeries = series
      in \<lparr>Series = newSeries, PValueThreshold = pvalue, Statistic = 0, Lag = lag\<rparr>)"

text \<open>
  The integer cube root, by a downward search: it evaluates the floor of the real
  cube root of a length (lemma \<open>floor_cbrt\<close> below).
\<close>

primrec cbrt_down :: "nat \<Rightarrow> nat \<Rightarrow> nat" where
  "cbrt_down n 0 = 0"
| "cbrt_down n (Suc k) = (if Suc k ^ 3 \<le> n then Suc k else cbrt_down n k)"

definition IsStationary :: "ADF \<Rightarrow> bool" where
  "IsStationary adf = (Statistic adf < PValueThreshold adf)"

subsection \<open>\<open>Run\<close>\<close>

text \<open>
  The ridge regression (\<open>NewRidge\<close>, \<open>Regress\<close> and the fields \<open>Coefficients\<close> and
  \<open>StdErrs\<close>) belongs to the repository but not to the sources at hand, so \<open>Run\<close>
  takes it as a parameter: a solver maps the design matrix, the response vector and
  the penalty to the coefficients and their standard errors, or panics.
\<close>

type_synonym ridge = "Dense \<Rightarrow> float64 list \<Rightarrow> float64 \<Rightarrow> error + (float64 list \<times> float64 list)"

text \<open>The centering loop \<^verbatim>\<open>for i, v := range series { series[i] = v - mean }\<close>.\<close>

primrec Run_center :: "float64 \<Rightarrow> float64 list \<Rightarrow> float64 list" where
  "Run_center mean [] = []"
| "Run_center mean (v # vs) = float64_sub v mean # Run_center mean vs"

text \<open>The loop \<^verbatim>\<open>for i := 0; i < c; i++ { design.SetCol(1+i, mat.Col(nil, i, yt1)) }\<close>.\<close>

function Run_cols :: "Dense \<Rightarrow> Dense \<Rightarrow> int \<Rightarrow> int \<Rightarrow> error + Dense" where
  "Run_cols design yt1 c i =
     (if i < c then
        (case mat_Col yt1 i of Inl e \<Rightarrow> Inl e | Inr col \<Rightarrow>
         (case dense_SetCol design (1 + i) col of Inl e \<Rightarrow> Inl e | Inr design' \<Rightarrow>
            Run_cols design' yt1 c (i + 1)))
      else Inr design)"
  by pat_completeness auto
termination
  by (relation "measure (\<lambda>(design, yt1, c, i). nat (c - i))") auto

declare Run_cols.simps [simp del]

text \<open>
  Lines 53 to 82 of \<open>Run\<close>: from the centered series and the lag to the design
  matrix and the response vector handed to the regression.
\<close>

definition Run_design :: "float64 list \<Rightarrow> int \<Rightarrow> error + (Dense \<times> float64 list)" where
  "Run_design series lag =
     (let n = int (length series) - 1 in
      bindE (diff series) (\<lambda>y.
      let k = lag + 1 in
      bindE (laggedMatrix y k) (\<lambda>z.
      bindE (mat_Col z 0) (\<lambda>zcol1.
      bindE (go_slice series (k - 1) n) (\<lambda>xt1.
      let (r, c) = dense_Dims z in
      bindE (if k > 1 then
               bindE (view z 0 1 r (c - 1)) (\<lambda>yt1.
               bindE (mat_NewDense (n - k + 1) k) (\<lambda>design.
               bindE (dense_SetCol design 0 xt1) (\<lambda>design.
               let c = snd (dense_Dims yt1) in
               Run_cols design yt1 c 0)))
             else
               bindE (mat_NewDense (n - k + 1) 1) (\<lambda>design.
               dense_SetCol design 0 xt1))
        (\<lambda>design.
      bindE (mat_NewVecDense (int (length zcol1)) zcol1) (\<lambda>regressY.
      Inr (design, regressY))))))))"

text \<open>
  Lines 84 to 90: the regression and the quotient \<open>beta[0] / sd[0]\<close>.
\<close>

definition Run_statistic :: "ridge \<Rightarrow> float64 list \<Rightarrow> int \<Rightarrow> error + float64" where
  "Run_statistic rr series lag =
     bindE (Run_design series lag) (\<lambda>(design, regressY).
     bindE (rr design regressY LPenalty) (\<lambda>(beta, sd).
     bindE (go_index beta 0) (\<lambda>b.
     bindE (go_index sd 0) (\<lambda>s.
     Inr (float64_div b s)))))"

text \<open>
  \<open>Run\<close> has no result: it changes the instance behind its pointer receiver. The
  model returns the instance as \<open>Run\<close> leaves it, and the panic that ended it, if any:
  the series is centered in place before anything can panic, and \<open>Statistic\<close> is
  assigned last.
\<close>

definition Run :: "ridge \<Rightarrow> ADF \<Rightarrow> ADF \<times> error option" where
  "Run rr adf =
     (let series = Series adf;
          mean = stat_Mean series;
          series = (if mean \<noteq> 0 then Run_center mean series else series);
          adf = adf\<lparr>Series := series\<rparr>
      in case Run_statistic rr series (Lag adf) of
           Inl e \<Rightarrow> (adf, Some e)
         | Inr t \<Rightarrow> (adf\<lparr>Statistic := t\<rparr>, None))"

text \<open>
  An instance of the solver's interface, for running \<open>Run\<close> on concrete inputs. It
  is not the repository's solver: coefficient \<open>j\<close> is the ridge estimate of column
  \<open>j\<close> taken alone, \<open>(x\<^sub>j \<cdot> y) / (x\<^sub>j \<cdot> x\<^sub>j + penalty)\<close> in exact arithmetic, and every
  standard error is \<open>1\<close>.
\<close>

definition dot :: "float64 list \<Rightarrow> float64 list \<Rightarrow> float64" where
  "dot u v = sum_list (map2 (*) u v)"

definition column_ridge :: ridge where
  "column_ridge X y penalty =
     (let cols = map (\<lambda>j. map (\<lambda>i. Elems X ! i ! j) [0 ..< nat (Rows X)]) [0 ..< nat (Cols X)]
      in Inr (map (\<lambda>x. dot x y / (dot x x + penalty)) cols, map (\<lambda>x. 1) cols))"

text \<open>
  Two observations for stating what \<open>Run\<close> builds: a column of the design matrix
  that \<open>Run\<close> assembles from a (centered) series and a lag, and a column of the lag
  matrix \<open>z\<close> that \<open>Run\<close> builds from the differenced series with \<open>k = lag + 1\<close>.
\<close>

definition design_col :: "float64 list \<Rightarrow> int \<Rightarrow> int \<Rightarrow> error + float64 list" where
  "design_col series lag j =
     bindE (Run_design series lag) (\<lambda>(design, regressY). mat_Col design j)"

definition lagged_col :: "float64 list \<Rightarrow> int \<Rightarrow> int \<Rightarrow> error + float64 list" where
  "lagged_col series lag j =
     bindE (diff series) (\<lambda>y. bindE (laggedMatrix y (lag + 1)) (\<lambda>z. mat_Col z j))"

text \<open>The representation invariant of a matrix: its rows are as many and as long as its dimensions say.\<close>

definition wf_dense :: "Dense \<Rightarrow> bool" where
  "wf_dense m =
     (0 \<le> Rows m \<and> 0 \<le> Cols m \<and> length (Elems m) = nat (Rows m) \<and>
      list_all (\<lambda>row. length row = nat (Cols m)) (Elems m))"

section \<open>Properties\<close>

subsection \<open>Rounding\<close>

lemma round_even_of_int: "round_even (of_int k) = k"
  by (simp add: round_even_def)

lemma exponent_down_cases:
  "exponent_down x k = - 1022 \<or> 2 powi (exponent_down x k) \<le> \<bar>x\<bar>"
  by (induction k) auto

lemma exponent_down_eq:
  assumes "2 powi e \<le> \<bar>x\<bar>" "\<bar>x\<bar> < 2 powi (e + 1)" "- 1022 \<le> e" "e \<le> int k - 1022"
  shows "exponent_down x k = e"
  using assms(4)
proof (induction k)
  case 0
  then show ?case using assms(3) by simp
next
  case (Suc k)
  show ?case
  proof (cases "e = int k - 1021")
    case True
    then show ?thesis using assms(1) by simp
  next
    case False
    then have le: "e \<le> int k - 1022" using Suc.prems by simp
    then have "e + 1 \<le> int k - 1021" by simp
    then have "(2::real) powi (e + 1) \<le> 2 powi (int k - 1021)"
      by (intro power_int_increasing) simp_all
    then have "\<not> 2 powi (int k - 1021) \<le> \<bar>x\<bar>" using assms(2) by linarith
    then show ?thesis using Suc.IH [OF le] by simp
  qed
qed

lemma float64_round_at:
  assumes "2 powi e \<le> \<bar>x\<bar>" "\<bar>x\<bar> < 2 powi (e + 1)" "- 1022 \<le> e" "e \<le> 1023"
  shows "float64_round x = of_int (round_even (x / 2 powi (e - 52))) * 2 powi (e - 52)"
proof -
  have "float64_exponent x = e"
    unfolding float64_exponent_def using assms by (intro exponent_down_eq) simp_all
  then show ?thesis by (simp add: float64_round_def Let_def)
qed

lemma float64_round_exact:
  assumes "x * 2 ^ j \<in> \<int>" "\<bar>x\<bar> * 2 ^ j < 2 ^ 53" "j \<le> 1074"
  shows "float64_round x = x"
proof -
  let ?E = "float64_exponent x"
  from assms(1) obtain n :: int where n: "x * 2 ^ j = of_int n" by (auto elim: Ints_cases)
  have E: "?E \<le> 52 - int j"
  proof -
    from exponent_down_cases [of x 2045]
    consider "?E = - 1022" | "2 powi ?E \<le> \<bar>x\<bar>" by (auto simp: float64_exponent_def)
    then show ?thesis
    proof cases
      case 1
      then show ?thesis using assms(3) by simp
    next
      case 2
      have "2 powi (?E + int j) = (2::real) powi ?E * 2 ^ j"
        by (simp add: power_int_add)
      also have "\<dots> \<le> \<bar>x\<bar> * 2 ^ j" using 2 by simp
      also have "\<dots> < 2 powi 53" using assms(2) by simp
      finally have lt: "(2::real) powi (?E + int j) < 2 powi 53" .
      have "?E + int j < 53"
      proof (rule ccontr)
        assume "\<not> ?E + int j < 53"
        then have "(2::real) powi 53 \<le> 2 powi (?E + int j)"
          by (intro power_int_increasing) simp_all
        with lt show False by simp
      qed
      then show ?thesis by simp
    qed
  qed
  define d where "d = nat (52 - int j - ?E)"
  have d: "int d = 52 - int j - ?E" using E by (simp add: d_def)
  have "x / 2 powi (?E - 52) = x * 2 powi (52 - ?E)"
    by (simp add: power_int_diff field_simps)
  also have "52 - ?E = int j + int d" using d by simp
  also have "x * 2 powi (int j + int d) = of_int n * 2 ^ d"
    using n by (simp add: power_int_add)
  finally have q: "x / 2 powi (?E - 52) = of_int (n * 2 ^ d)" by simp
  have "float64_round x = of_int (n * 2 ^ d) * 2 powi (?E - 52)"
    unfolding float64_round_def Let_def q round_even_of_int ..
  also have "\<dots> = x / 2 powi (?E - 52) * 2 powi (?E - 52)" using q by simp
  also have "\<dots> = x" by simp
  finally show ?thesis .
qed


lemma float64_round_small:
  "x * 1024 \<in> \<int> \<Longrightarrow> \<bar>x\<bar> * 1024 < 9007199254740992 \<Longrightarrow> float64_round x = x"
  using float64_round_exact [of x 10] by simp

lemma is_float64_sub_0: "is_float64 v \<Longrightarrow> float64_sub v 0 = v"
  by (simp add: is_float64_def float64_sub_def)

subsection \<open>Sequencing\<close>

lemma bindE_Inr: "bindE (Inr x) f = f x"
  by (simp add: bindE_def)

lemma bindE_Inl: "bindE (Inl e) f = Inl e"
  by (simp add: bindE_def)

subsection \<open>The matrix library on well-formed matrices\<close>

lemma wf_dense_row: "wf_dense m \<Longrightarrow> a < nat (Rows m) \<Longrightarrow> length (Elems m ! a) = nat (Cols m)"
  by (simp add: wf_dense_def list_all_length)

lemma wf_denseI:
  "0 \<le> Rows m \<Longrightarrow> 0 \<le> Cols m \<Longrightarrow> length (Elems m) = nat (Rows m) \<Longrightarrow>
   (\<And>a. a < nat (Rows m) \<Longrightarrow> length (Elems m ! a) = nat (Cols m)) \<Longrightarrow> wf_dense m"
  by (simp add: wf_dense_def list_all_length)

lemma mat_NewDense_ok:
  assumes "0 < r" "0 < c"
  shows "\<exists>m. mat_NewDense r c = Inr m \<and> wf_dense m \<and> Rows m = r \<and> Cols m = c"
  using assms by (simp add: mat_NewDense_def wf_dense_def list_all_length)

lemma dense_Set_ok:
  assumes "wf_dense m" "0 \<le> i" "i < Rows m" "0 \<le> j" "j < Cols m"
  shows "\<exists>m'. dense_Set m i j v = Inr m' \<and> wf_dense m' \<and> Rows m' = Rows m \<and> Cols m' = Cols m \<and>
           (\<forall>a b. a < nat (Rows m) \<longrightarrow> b < nat (Cols m) \<longrightarrow>
              Elems m' ! a ! b = (if a = nat i \<and> b = nat j then v else Elems m ! a ! b))"
proof -
  let ?m' = "m\<lparr>Elems := (Elems m)[nat i := (Elems m ! nat i)[nat j := v]]\<rparr>"
  have run: "dense_Set m i j v = Inr ?m'" using assms by (simp add: dense_Set_def)
  have wf: "wf_dense ?m'"
    using assms by (auto simp: wf_dense_def list_all_length nth_list_update)
  have "\<forall>a b. a < nat (Rows m) \<longrightarrow> b < nat (Cols m) \<longrightarrow>
              Elems ?m' ! a ! b = (if a = nat i \<and> b = nat j then v else Elems m ! a ! b)"
    using assms by (auto simp: wf_dense_def list_all_length nth_list_update)
  with run wf show ?thesis by simp
qed

lemma mat_Col_ok:
  assumes "0 \<le> j" "j < Cols m"
  shows "mat_Col m j = Inr (map (\<lambda>i. Elems m ! i ! nat j) [0 ..< nat (Rows m)])"
  using assms by (simp add: mat_Col_def)

lemma mat_Col_eqI:
  assumes "Rows m = Rows m'" "0 \<le> j" "j < Cols m" "0 \<le> j'" "j' < Cols m'"
    and "\<And>a. a < nat (Rows m) \<Longrightarrow> Elems m ! a ! nat j = Elems m' ! a ! nat j'"
  shows "mat_Col m j = mat_Col m' j'"
  using assms by (simp add: mat_Col_def)

lemma dense_SetCol_ok:
  assumes "wf_dense m" "0 \<le> j" "j < Cols m" "int (length src) = Rows m"
  shows "\<exists>m'. dense_SetCol m j src = Inr m' \<and> wf_dense m' \<and> Rows m' = Rows m \<and> Cols m' = Cols m \<and>
           mat_Col m' j = Inr src \<and> (\<forall>j'. j' \<noteq> j \<longrightarrow> mat_Col m' j' = mat_Col m j')"
proof -
  let ?m' = "m\<lparr>Elems := map (\<lambda>i. (Elems m ! i)[nat j := src ! i]) [0 ..< nat (Rows m)]\<rparr>"
  have run: "dense_SetCol m j src = Inr ?m'" using assms by (simp add: dense_SetCol_def)
  have wf: "wf_dense ?m'"
    using assms by (auto simp: wf_dense_def list_all_length)
  have len: "length src = nat (Rows m)" using assms(4) by linarith
  have "map (\<lambda>i. Elems ?m' ! i ! nat j) [0 ..< nat (Rows m)] = src"
    using assms len by (intro nth_equalityI) (auto simp: wf_dense_def list_all_length)
  then have colj: "mat_Col ?m' j = Inr src" using assms by (simp add: mat_Col_def)
  have "mat_Col ?m' j' = mat_Col m j'" if "j' \<noteq> j" for j'
  proof (cases "0 \<le> j' \<and> j' < Cols m")
    case True
    then have "nat j' \<noteq> nat j" using that assms(2) by linarith
    then show ?thesis using True by (simp add: mat_Col_def)
  next
    case False
    then show ?thesis by (auto simp: mat_Col_def)
  qed
  with run wf colj show ?thesis by simp
qed

lemma view_ok:
  assumes "wf_dense z" "0 < Rows z" "1 < Cols z"
  shows "\<exists>yt1. view z 0 1 (Rows z) (Cols z - 1) = Inr yt1 \<and> wf_dense yt1 \<and>
           Rows yt1 = Rows z \<and> Cols yt1 = Cols z - 1 \<and>
           (\<forall>i. 0 \<le> i \<longrightarrow> i < Cols z - 1 \<longrightarrow> mat_Col yt1 i = mat_Col z (i + 1))"
proof -
  let ?y = "\<lparr>Rows = Rows z, Cols = Cols z - 1,
             Elems = map (\<lambda>row. take (nat (Cols z - 1)) (drop (Suc 0) row)) (Elems z)\<rparr>"
  have lz: "length (Elems z) = nat (Rows z)" using assms(1) by (simp add: wf_dense_def)
  have run: "view z 0 1 (Rows z) (Cols z - 1) = Inr ?y"
    using assms lz by (simp add: view_def dense_Slice_def)
  have wf: "wf_dense ?y"
    using assms by (auto simp: wf_dense_def list_all_length)
  have "mat_Col ?y i = mat_Col z (i + 1)" if "0 \<le> i" "i < Cols z - 1" for i
  proof -
    have "Elems ?y ! a ! nat i = Elems z ! a ! nat (i + 1)" if "a < nat (Rows z)" for a
    proof -
      have "length (Elems z ! a) = nat (Cols z)" using wf_dense_row [OF assms(1) that] .
      moreover have "nat (i + 1) = Suc (nat i)" using \<open>0 \<le> i\<close> by linarith
      moreover have "nat i < nat (Cols z - 1)" using \<open>0 \<le> i\<close> \<open>i < Cols z - 1\<close> by linarith
      moreover have "Suc 0 \<le> nat (Cols z)" using assms(3) by linarith
      ultimately show ?thesis using that lz by (simp add: nth_drop)
    qed
    then show ?thesis using that by (simp add: mat_Col_def)
  qed
  with run wf show ?thesis by simp
qed

subsection \<open>\<open>diff\<close>\<close>

lemma diff_loop_run:
  "length y = length x - 1 \<Longrightarrow>
   \<exists>y'. diff_loop x y (int i) = Inr y' \<and> length y' = length y \<and>
        (\<forall>j < length y. y' ! j = (if i \<le> j then float64_sub (x ! (j + 1)) (x ! j) else y ! j))"
proof (induction "length x - 1 - i" arbitrary: i y)
  case 0
  then have "\<not> int i < int (length x) - 1" by linarith
  moreover have "\<forall>j < length y. \<not> i \<le> j" using 0 by auto
  ultimately show ?case by (subst diff_loop.simps) simp
next
  case (Suc n)
  then have lt: "int i < int (length x) - 1" and i1: "i + 1 < length x" and iy: "i < length y"
    by linarith+
  let ?v = "float64_sub (x ! (i + 1)) (x ! i)"
  have n: "n = length x - 1 - (i + 1)" using Suc.hyps(2) by linarith
  have len: "length (y[i := ?v]) = length x - 1" using Suc.prems by simp
  from Suc.hyps(1) [OF n len] obtain y' where
    run: "diff_loop x (y[i := ?v]) (int (i + 1)) = Inr y'" and
    l: "length y' = length y" and
    ent: "\<forall>j < length y. y' ! j =
            (if i + 1 \<le> j then float64_sub (x ! (j + 1)) (x ! j) else (y[i := ?v]) ! j)"
    by auto
  have step: "diff_loop x y (int i) = diff_loop x (y[i := ?v]) (int (i + 1))"
    using lt i1 iy
    by (subst diff_loop.simps) (simp add: go_index_def go_store_def nat_add_distrib add.commute)
  have "\<forall>j < length y. y' ! j = (if i \<le> j then float64_sub (x ! (j + 1)) (x ! j) else y ! j)"
  proof (intro allI impI)
    fix j assume j: "j < length y"
    show "y' ! j = (if i \<le> j then float64_sub (x ! (j + 1)) (x ! j) else y ! j)"
    proof (cases "j = i")
      case True
      then show ?thesis using ent j by simp
    next
      case False
      then show ?thesis using ent j by auto
    qed
  qed
  with step run l show ?case by simp
qed

lemma diff_ok:
  assumes "1 \<le> length x"
  shows "\<exists>y. diff x = Inr y \<and> length y = length x - 1 \<and>
             (\<forall>j < length x - 1. y ! j = float64_sub (x ! (j + 1)) (x ! j))"
proof -
  let ?y0 = "replicate (length x - 1) (0::real)"
  have "nat (int (length x) - 1) = length x - 1" by linarith
  then have mk: "make_slice (int (length x) - 1) = Inr ?y0"
    using assms by (auto simp: make_slice_def)
  have "length ?y0 = length x - 1" by simp
  from diff_loop_run [OF this, of 0] obtain y' where
    run: "diff_loop x ?y0 0 = Inr y'" and l: "length y' = length x - 1" and
    ent: "\<forall>j < length x - 1. y' ! j = float64_sub (x ! (j + 1)) (x ! j)"
    by auto
  have "diff x = Inr y'" using run by (simp add: diff_def mk bindE_def)
  with l ent show ?thesis by blast
qed

text \<open>
  C5. For every sequence \<open>x\<close> with at least two elements, \<open>diff x\<close> returns a
  sequence of length \<open>len(x) - 1\<close> whose element \<open>i\<close> is \<open>x[i+1] - x[i]\<close>, for every
  \<open>i\<close> from \<open>0\<close> to \<open>len(x) - 2\<close>.
\<close>

theorem diff_spec:
  assumes "2 \<le> length x"
  shows "\<exists>y. diff x = Inr y \<and> length y = length x - 1 \<and>
             (\<forall>i. i + 2 \<le> length x \<longrightarrow> y ! i = float64_sub (x ! (i + 1)) (x ! i))"
proof -
  have "1 \<le> length x" using assms by simp
  from diff_ok [OF this] obtain y where
    "diff x = Inr y" "length y = length x - 1"
    "\<forall>j < length x - 1. y ! j = float64_sub (x ! (j + 1)) (x ! j)"
    by blast
  moreover from this have "\<forall>i. i + 2 \<le> length x \<longrightarrow> y ! i = float64_sub (x ! (i + 1)) (x ! i)"
    by auto
  ultimately show ?thesis by blast
qed

theorem diff_spec_witness:
  "2 \<le> length [1, 4, 9 :: float64] \<and> diff [1, 4, 9] = Inr [3, 5]"
proof -
  have h: "2 \<le> length [1, 4, 9 :: float64]" by simp
  from diff_spec [OF h] obtain y where
    y: "diff [1, 4, 9] = Inr y" and l: "length y = 2" and
    e: "\<forall>i. i + 2 \<le> 3 \<longrightarrow> y ! i = float64_sub ([1, 4, 9] ! (i + 1)) ([1, 4, 9] ! i)"
    by auto
  from e have "y ! 0 = 3" "y ! 1 = 5"
    by (simp_all add: nth_Cons' float64_sub_def float64_round_small)
  with l have "y = [3, 5]" by (cases y; cases "tl y"; cases "tl (tl y)") auto
  with y h show ?thesis by simp
qed

subsection \<open>\<open>laggedMatrix\<close>\<close>

lemma laggedMatrix_rows_run:
  assumes "wf_dense m" "Rows m = r" "0 \<le> j" "j < Cols m"
    and "0 \<le> lag - j - 1" "lag - j - 1 + r \<le> int (length series)"
  shows "\<exists>m'. laggedMatrix_rows series lag r j m (int i) = Inr m' \<and> wf_dense m' \<and>
           Rows m' = Rows m \<and> Cols m' = Cols m \<and>
           (\<forall>a b. a < nat (Rows m) \<longrightarrow> b < nat (Cols m) \<longrightarrow>
              Elems m' ! a ! b =
                (if b = nat j \<and> i \<le> a then series ! nat (lag - j - 1 + int a) else Elems m ! a ! b))"
  using assms
proof (induction "nat r - i" arbitrary: i m)
  case 0
  then have "\<not> int i < r" by linarith
  moreover have "\<forall>a. a < nat (Rows m) \<longrightarrow> \<not> i \<le> a" using 0 by auto
  ultimately show ?case using "0.prems"(1) by (subst laggedMatrix_rows.simps) simp
next
  case (Suc n)
  then have lt: "int i < r" by linarith
  let ?v = "series ! nat (lag - j - 1 + int i)"
  have idx: "go_index series (lag - j - 1 + int i) = Inr ?v"
    using lt Suc.prems(5,6) by (simp add: go_index_def)
  from dense_Set_ok [OF Suc.prems(1), of "int i" j ?v] lt Suc.prems(2,3,4)
  obtain m1 where
    set: "dense_Set m (int i) j ?v = Inr m1" and wf1: "wf_dense m1" and
    r1: "Rows m1 = Rows m" and c1: "Cols m1 = Cols m" and
    e1: "\<forall>a b. a < nat (Rows m) \<longrightarrow> b < nat (Cols m) \<longrightarrow>
           Elems m1 ! a ! b = (if a = i \<and> b = nat j then ?v else Elems m ! a ! b)"
    by auto
  have n: "n = nat r - (i + 1)" using Suc.hyps(2) by linarith
  from Suc.hyps(1) [OF n wf1, of] r1 c1 Suc.prems(2,3,4,5,6)
  obtain m' where
    run: "laggedMatrix_rows series lag r j m1 (int (i + 1)) = Inr m'" and wf': "wf_dense m'" and
    r': "Rows m' = Rows m" and c': "Cols m' = Cols m" and
    e': "\<forall>a b. a < nat (Rows m) \<longrightarrow> b < nat (Cols m) \<longrightarrow>
           Elems m' ! a ! b =
             (if b = nat j \<and> i + 1 \<le> a then series ! nat (lag - j - 1 + int a) else Elems m1 ! a ! b)"
    by auto
  have step: "laggedMatrix_rows series lag r j m (int i) =
              laggedMatrix_rows series lag r j m1 (int (i + 1))"
    using lt idx set by (subst laggedMatrix_rows.simps) (simp add: add.commute)
  have "\<forall>a b. a < nat (Rows m) \<longrightarrow> b < nat (Cols m) \<longrightarrow>
          Elems m' ! a ! b =
            (if b = nat j \<and> i \<le> a then series ! nat (lag - j - 1 + int a) else Elems m ! a ! b)"
  proof (intro allI impI)
    fix a b assume ab: "a < nat (Rows m)" "b < nat (Cols m)"
    show "Elems m' ! a ! b =
            (if b = nat j \<and> i \<le> a then series ! nat (lag - j - 1 + int a) else Elems m ! a ! b)"
    proof (cases "a = i")
      case True
      then show ?thesis using e' e1 ab by simp
    next
      case False
      then show ?thesis using e' e1 ab by auto
    qed
  qed
  with step run wf' r' c' show ?case by simp
qed

lemma laggedMatrix_cols_run:
  assumes "wf_dense m" "Rows m = r" "Cols m = lag" "1 \<le> lag"
    and "r = int (length series) - lag + 1" "0 \<le> r"
  shows "\<exists>m'. laggedMatrix_cols series lag r lag m (int j) = Inr m' \<and> wf_dense m' \<and>
           Rows m' = Rows m \<and> Cols m' = Cols m \<and>
           (\<forall>a b. a < nat (Rows m) \<longrightarrow> b < nat (Cols m) \<longrightarrow>
              Elems m' ! a ! b =
                (if j \<le> b then series ! nat (lag - int b - 1 + int a) else Elems m ! a ! b))"
  using assms
proof (induction "nat lag - j" arbitrary: j m)
  case 0
  then have "\<not> int j < lag" by linarith
  moreover have "\<forall>b. b < nat (Cols m) \<longrightarrow> \<not> j \<le> b" using 0 by auto
  ultimately show ?case using "0.prems"(1) by (subst laggedMatrix_cols.simps) simp
next
  case (Suc n)
  then have lt: "int j < lag" by linarith
  have b1: "0 \<le> lag - int j - 1" using lt by linarith
  have b2: "lag - int j - 1 + r \<le> int (length series)" using Suc.prems(5) by linarith
  from laggedMatrix_rows_run [OF Suc.prems(1,2) _ _ b1 b2, of 0] lt Suc.prems(3)
  obtain m1 where
    rows: "laggedMatrix_rows series lag r (int j) m 0 = Inr m1" and wf1: "wf_dense m1" and
    r1: "Rows m1 = Rows m" and c1: "Cols m1 = Cols m" and
    e1: "\<forall>a b. a < nat (Rows m) \<longrightarrow> b < nat (Cols m) \<longrightarrow>
           Elems m1 ! a ! b =
             (if b = j then series ! nat (lag - int j - 1 + int a) else Elems m ! a ! b)"
    by auto
  have n: "n = nat lag - (j + 1)" using Suc.hyps(2) by linarith
  from Suc.hyps(1) [OF n wf1] r1 c1 Suc.prems(2,3,4,5,6)
  obtain m' where
    run: "laggedMatrix_cols series lag r lag m1 (int (j + 1)) = Inr m'" and wf': "wf_dense m'" and
    r': "Rows m' = Rows m" and c': "Cols m' = Cols m" and
    e': "\<forall>a b. a < nat (Rows m) \<longrightarrow> b < nat (Cols m) \<longrightarrow>
           Elems m' ! a ! b =
             (if j + 1 \<le> b then series ! nat (lag - int b - 1 + int a) else Elems m1 ! a ! b)"
    by auto
  have step: "laggedMatrix_cols series lag r lag m (int j) =
              laggedMatrix_cols series lag r lag m1 (int (j + 1))"
    using lt rows by (subst laggedMatrix_cols.simps) (simp add: add.commute)
  have "\<forall>a b. a < nat (Rows m) \<longrightarrow> b < nat (Cols m) \<longrightarrow>
          Elems m' ! a ! b =
            (if j \<le> b then series ! nat (lag - int b - 1 + int a) else Elems m ! a ! b)"
  proof (intro allI impI)
    fix a b assume ab: "a < nat (Rows m)" "b < nat (Cols m)"
    show "Elems m' ! a ! b =
            (if j \<le> b then series ! nat (lag - int b - 1 + int a) else Elems m ! a ! b)"
    proof (cases "b = j")
      case True
      then show ?thesis using e' e1 ab by simp
    next
      case False
      then show ?thesis using e' e1 ab by auto
    qed
  qed
  with step run wf' r' c' show ?case by simp
qed

lemma laggedMatrix_ok:
  assumes "1 \<le> lag" "lag \<le> int (length series)"
  shows "\<exists>m. laggedMatrix series lag = Inr m \<and> wf_dense m \<and>
           Rows m = int (length series) - lag + 1 \<and> Cols m = lag \<and>
           (\<forall>a b. a < nat (Rows m) \<longrightarrow> b < nat (Cols m) \<longrightarrow>
              Elems m ! a ! b = series ! nat (lag - int b - 1 + int a))"
proof -
  let ?r = "int (length series) - lag + 1"
  have r: "0 < ?r" using assms by linarith
  from mat_NewDense_ok [OF r, of lag] assms(1) obtain m0 where
    new: "mat_NewDense ?r lag = Inr m0" and wf0: "wf_dense m0" and
    r0: "Rows m0 = ?r" and c0: "Cols m0 = lag"
    by auto
  from laggedMatrix_cols_run [OF wf0 r0 c0 assms(1), of series 0] r r0 c0
  obtain m where
    "laggedMatrix_cols series lag ?r lag m0 0 = Inr m" "wf_dense m"
    "Rows m = ?r" "Cols m = lag"
    "\<forall>a b. a < nat (Rows m0) \<longrightarrow> b < nat (Cols m0) \<longrightarrow>
       Elems m ! a ! b = series ! nat (lag - int b - 1 + int a)"
    by auto
  then show ?thesis using new r0 c0 by (simp add: laggedMatrix_def bindE_def)
qed

text \<open>
  C4. For every sequence \<open>s\<close> and integer \<open>L\<close> with \<open>1 \<le> L \<le> len(s)\<close>,
  \<open>laggedMatrix(s, L)\<close> returns a matrix with \<open>len(s) - L + 1\<close> rows and \<open>L\<close> columns
  whose entry \<open>(i, j)\<close> is \<open>s[L - j - 1 + i]\<close>, an index within \<open>s\<close>. Entry \<open>(0, 0)\<close>
  is \<open>s[L - 1]\<close>; column \<open>0\<close> is \<open>s[L-1:]\<close>, the most recent lag, and column \<open>L - 1\<close>
  is \<open>s[0 : len(s)-L+1]\<close>, the oldest.
\<close>

theorem laggedMatrix_spec:
  assumes "1 \<le> L" "L \<le> int (length s)"
  shows "\<exists>m. laggedMatrix s L = Inr m \<and> dense_Dims m = (int (length s) - L + 1, L) \<and>
           (\<forall>i j. 0 \<le> i \<longrightarrow> i < int (length s) - L + 1 \<longrightarrow> 0 \<le> j \<longrightarrow> j < L \<longrightarrow>
              dense_At m i j = go_index s (L - j - 1 + i) \<and>
              go_index s (L - j - 1 + i) = Inr (s ! nat (L - j - 1 + i))) \<and>
           dense_At m 0 0 = Inr (s ! nat (L - 1)) \<and>
           mat_Col m 0 = go_slice s (L - 1) (int (length s)) \<and>
           mat_Col m (L - 1) = go_slice s 0 (int (length s) - L + 1)"
proof -
  let ?r = "int (length s) - L + 1"
  from laggedMatrix_ok [OF assms] obtain m where
    run: "laggedMatrix s L = Inr m" and wf: "wf_dense m" and
    r: "Rows m = ?r" and c: "Cols m = L" and
    e: "\<forall>a b. a < nat (Rows m) \<longrightarrow> b < nat (Cols m) \<longrightarrow>
          Elems m ! a ! b = s ! nat (L - int b - 1 + int a)"
    by blast
  have at: "dense_At m i j = go_index s (L - j - 1 + i) \<and>
            go_index s (L - j - 1 + i) = Inr (s ! nat (L - j - 1 + i))"
    if "0 \<le> i" "i < ?r" "0 \<le> j" "j < L" for i j
  proof -
    have "nat i < nat (Rows m)" "nat j < nat (Cols m)" using that r c by linarith+
    with e have "Elems m ! nat i ! nat j = s ! nat (L - int (nat j) - 1 + int (nat i))" by blast
    then have "Elems m ! nat i ! nat j = s ! nat (L - j - 1 + i)" using that by simp
    then show ?thesis using that r c by (simp add: dense_At_def go_index_def)
  qed
  have "0 < ?r" using assms by linarith
  with at [of 0 0] assms have at00: "dense_At m 0 0 = Inr (s ! nat (L - 1))" by simp
  have col0: "mat_Col m 0 = go_slice s (L - 1) (int (length s))"
  proof -
    have "map (\<lambda>i. Elems m ! i ! nat 0) [0 ..< nat ?r] =
          take (nat (int (length s) - (L - 1))) (drop (nat (L - 1)) s)"
    proof (intro nth_equalityI)
      show "length (map (\<lambda>i. Elems m ! i ! nat 0) [0 ..< nat ?r]) =
            length (take (nat (int (length s) - (L - 1))) (drop (nat (L - 1)) s))"
        using assms by simp
    next
      fix a assume "a < length (map (\<lambda>i. Elems m ! i ! nat 0) [0 ..< nat ?r])"
      then have a: "a < nat ?r" by simp
      then have "Elems m ! a ! 0 = s ! nat (L - int 0 - 1 + int a)"
        using e r c assms by (metis zero_less_nat_eq zero_less_one_class.zero_less_one less_le_trans)
      moreover have "nat (L - 1 + int a) = nat (L - 1) + a" using assms by linarith
      ultimately show "map (\<lambda>i. Elems m ! i ! nat 0) [0 ..< nat ?r] ! a =
            take (nat (int (length s) - (L - 1))) (drop (nat (L - 1)) s) ! a"
        using a assms by simp
    qed
    then show ?thesis using assms r c by (simp add: mat_Col_def go_slice_def)
  qed
  have colL: "mat_Col m (L - 1) = go_slice s 0 ?r"
  proof -
    have "map (\<lambda>i. Elems m ! i ! nat (L - 1)) [0 ..< nat ?r] = take (nat ?r) s"
    proof (intro nth_equalityI)
      show "length (map (\<lambda>i. Elems m ! i ! nat (L - 1)) [0 ..< nat ?r]) = length (take (nat ?r) s)"
        using assms by simp
    next
      fix a assume "a < length (map (\<lambda>i. Elems m ! i ! nat (L - 1)) [0 ..< nat ?r])"
      then have a: "a < nat ?r" by simp
      moreover have "nat (L - 1) < nat (Cols m)" using c assms by linarith
      ultimately have "Elems m ! a ! nat (L - 1) = s ! nat (L - int (nat (L - 1)) - 1 + int a)"
        using e r by simp
      moreover have "nat (L - int (nat (L - 1)) - 1 + int a) = a" using assms by linarith
      ultimately show "map (\<lambda>i. Elems m ! i ! nat (L - 1)) [0 ..< nat ?r] ! a = take (nat ?r) s ! a"
        using a by simp
    qed
    then show ?thesis using assms r c by (simp add: mat_Col_def go_slice_def)
  qed
  from run r c at at00 col0 colL show ?thesis
    by (intro exI [of _ m]) (simp add: dense_Dims_def)
qed

theorem laggedMatrix_spec_witness:
  "(1::int) \<le> 3 \<and> 3 \<le> int (length [1, 2, 3, 4, 5 :: float64]) \<and>
   laggedMatrix [1, 2, 3, 4, 5] 3 = Inr \<lparr>Rows = 3, Cols = 3, Elems = [[3, 2, 1], [4, 3, 2], [5, 4, 3]]\<rparr>"
proof -
  have h1: "(1::int) \<le> 3" by simp
  have h2: "3 \<le> int (length [1, 2, 3, 4, 5 :: float64])" by simp
  from laggedMatrix_spec [OF h1 h2] obtain m where "laggedMatrix [1, 2, 3, 4, 5] 3 = Inr m" by blast
  moreover have "laggedMatrix [1, 2, 3, 4, 5] 3 =
     Inr \<lparr>Rows = 3, Cols = 3, Elems = [[3, 2, 1], [4, 3, 2], [5, 4, 3]]\<rparr>"
    by (simp add: laggedMatrix_def bindE_def mat_NewDense_def laggedMatrix_cols.simps
        laggedMatrix_rows.simps go_index_def dense_Set_def numeral_3_eq_3)
  ultimately show ?thesis using h1 h2 by simp
qed

subsection \<open>The design matrix and the response of \<open>Run\<close>\<close>

lemma Run_cols_run:
  assumes "wf_dense design" "wf_dense yt1" "Rows design = Rows yt1"
    and "Cols design = c + 1" "Cols yt1 = c"
  shows "\<exists>d'. Run_cols design yt1 c (int i) = Inr d' \<and> wf_dense d' \<and>
           Rows d' = Rows design \<and> Cols d' = Cols design \<and>
           (\<forall>j. mat_Col d' j =
              (if 1 + int i \<le> j \<and> j \<le> c then mat_Col yt1 (j - 1) else mat_Col design j))"
  using assms
proof (induction "nat c - i" arbitrary: i design)
  case 0
  then have nlt: "\<not> int i < c" by linarith
  then have run: "Run_cols design yt1 c (int i) = Inr design"
    by (subst Run_cols.simps) simp
  have "\<forall>j. mat_Col design j =
          (if 1 + int i \<le> j \<and> j \<le> c then mat_Col yt1 (j - 1) else mat_Col design j)"
    using nlt by auto
  with run "0.prems"(1) show ?case by blast
next
  case (Suc n)
  then have lt: "int i < c" by linarith
  let ?col = "map (\<lambda>a. Elems yt1 ! a ! nat (int i)) [0 ..< nat (Rows yt1)]"
  have col: "mat_Col yt1 (int i) = Inr ?col"
    using lt Suc.prems(5) by (simp add: mat_Col_def)
  have rows: "0 \<le> Rows yt1" using Suc.prems(2) by (simp add: wf_dense_def)
  have len: "int (length ?col) = Rows design" using rows Suc.prems(3) by simp
  from dense_SetCol_ok [OF Suc.prems(1) _ _ len, of "1 + int i"] lt Suc.prems(4)
  obtain d1 where
    set: "dense_SetCol design (1 + int i) ?col = Inr d1" and wf1: "wf_dense d1" and
    r1: "Rows d1 = Rows design" and c1: "Cols d1 = Cols design" and
    e1: "mat_Col d1 (1 + int i) = Inr ?col" and
    o1: "\<forall>j'. j' \<noteq> 1 + int i \<longrightarrow> mat_Col d1 j' = mat_Col design j'"
    by auto
  have n: "n = nat c - (i + 1)" using Suc.hyps(2) by linarith
  from Suc.hyps(1) [OF n wf1 Suc.prems(2)] r1 c1 Suc.prems(3,4,5)
  obtain d' where
    run: "Run_cols d1 yt1 c (int (i + 1)) = Inr d'" and wf': "wf_dense d'" and
    r': "Rows d' = Rows design" and c': "Cols d' = Cols design" and
    e': "\<forall>j. mat_Col d' j =
           (if 1 + int (i + 1) \<le> j \<and> j \<le> c then mat_Col yt1 (j - 1) else mat_Col d1 j)"
    by auto
  have step: "Run_cols design yt1 c (int i) = Run_cols d1 yt1 c (int (i + 1))"
    using lt col set by (subst Run_cols.simps) (simp add: add.commute)
  have "\<forall>j. mat_Col d' j =
          (if 1 + int i \<le> j \<and> j \<le> c then mat_Col yt1 (j - 1) else mat_Col design j)"
  proof
    fix j
    show "mat_Col d' j =
            (if 1 + int i \<le> j \<and> j \<le> c then mat_Col yt1 (j - 1) else mat_Col design j)"
    proof (cases "j = 1 + int i")
      case True
      then show ?thesis using e' e1 col lt by simp
    next
      case False
      then show ?thesis using e' o1 by auto
    qed
  qed
  with step run wf' r' c' show ?case by simp
qed

lemma Run_design_ok:
  assumes "0 \<le> lag" "lag + 1 < int (length s)"
  shows "\<exists>y z X resp.
           diff s = Inr y \<and> length y = length s - 1 \<and>
           laggedMatrix y (lag + 1) = Inr z \<and> wf_dense z \<and>
           Rows z = int (length s) - 1 - lag \<and> Cols z = lag + 1 \<and>
           mat_Col z 0 = Inr resp \<and>
           Run_design s lag = Inr (X, resp) \<and> wf_dense X \<and>
           Rows X = int (length s) - 1 - lag \<and> Cols X = lag + 1 \<and>
           mat_Col X 0 = go_slice s lag (int (length s) - 1) \<and>
           go_slice s lag (int (length s) - 1) =
             Inr (take (nat (int (length s) - 1 - lag)) (drop (nat lag) s)) \<and>
           (\<forall>j. 1 \<le> j \<longrightarrow> j \<le> lag \<longrightarrow> mat_Col X j = mat_Col z j)"
proof -
  let ?n = "int (length s) - 1"
  let ?k = "lag + 1"
  let ?r = "?n - lag"
  have "1 \<le> length s" using assms by linarith
  from diff_ok [OF this] obtain y where
    y: "diff s = Inr y" and ly: "length y = length s - 1"
    by blast
  have k1: "1 \<le> ?k" and k2: "?k \<le> int (length y)" using assms ly by linarith+
  from laggedMatrix_ok [OF k1 k2] obtain z where
    z: "laggedMatrix y ?k = Inr z" and wfz: "wf_dense z" and
    rz: "Rows z = ?r" and cz: "Cols z = ?k"
    using ly assms by (auto simp: algebra_simps)
  let ?resp = "map (\<lambda>a. Elems z ! a ! nat 0) [0 ..< nat (Rows z)]"
  have zcol: "mat_Col z 0 = Inr ?resp" using cz assms by (simp add: mat_Col_def)
  let ?xt1 = "take (nat ?r) (drop (nat lag) s)"
  have xt1: "go_slice s lag ?n = Inr ?xt1" using assms by (simp add: go_slice_def)
  have lxt1: "int (length ?xt1) = ?r" using assms by simp
  have rpos: "0 < ?r" using assms by linarith
  have vec: "mat_NewVecDense (int (length ?resp)) ?resp = Inr ?resp"
    using rz rpos by (simp add: mat_NewVecDense_def)
  have "\<exists>X. (if ?k > 1 then
               bindE (view z 0 1 ?r (?k - 1)) (\<lambda>yt1.
               bindE (mat_NewDense (?n - ?k + 1) ?k) (\<lambda>design.
               bindE (dense_SetCol design 0 ?xt1) (\<lambda>design.
               Run_cols design yt1 (snd (dense_Dims yt1)) 0)))
             else
               bindE (mat_NewDense (?n - ?k + 1) 1) (\<lambda>design.
               dense_SetCol design 0 ?xt1)) = Inr X \<and> wf_dense X \<and>
           Rows X = ?r \<and> Cols X = ?k \<and> mat_Col X 0 = Inr ?xt1 \<and>
           (\<forall>j. 1 \<le> j \<longrightarrow> j \<le> lag \<longrightarrow> mat_Col X j = mat_Col z j)"
  proof (cases "?k > 1")
    case True
    from view_ok [OF wfz] rz cz rpos True obtain yt1 where
      v: "view z 0 1 ?r (?k - 1) = Inr yt1" and wfy: "wf_dense yt1" and
      ry: "Rows yt1 = ?r" and cy: "Cols yt1 = lag" and
      ey: "\<forall>i. 0 \<le> i \<longrightarrow> i < lag \<longrightarrow> mat_Col yt1 i = mat_Col z (i + 1)"
      by auto
    have "0 < ?n - ?k + 1" using rpos by linarith
    from mat_NewDense_ok [OF this, of ?k] k1 obtain d0 where
      d0: "mat_NewDense (?n - ?k + 1) ?k = Inr d0" and wf0: "wf_dense d0" and
      r0: "Rows d0 = ?r" and c0: "Cols d0 = ?k"
      by auto
    from dense_SetCol_ok [OF wf0, of 0 ?xt1] c0 r0 lxt1 k1 obtain d1 where
      d1: "dense_SetCol d0 0 ?xt1 = Inr d1" and wf1: "wf_dense d1" and
      r1: "Rows d1 = ?r" and c1: "Cols d1 = ?k" and
      e1: "mat_Col d1 0 = Inr ?xt1"
      by auto
    from Run_cols_run [OF wf1 wfy, of lag 0] r1 ry c1 cy obtain X where
      X: "Run_cols d1 yt1 lag 0 = Inr X" and wfX: "wf_dense X" and
      rX: "Rows X = ?r" and cX: "Cols X = ?k" and
      eX: "\<forall>j. mat_Col X j = (if 1 \<le> j \<and> j \<le> lag then mat_Col yt1 (j - 1) else mat_Col d1 j)"
      by auto
    have "mat_Col X 0 = Inr ?xt1" using eX e1 by simp
    moreover have "\<forall>j. 1 \<le> j \<longrightarrow> j \<le> lag \<longrightarrow> mat_Col X j = mat_Col z j"
      using eX ey by simp
    ultimately show ?thesis
      using True v d0 d1 X wfX rX cX cy by (simp add: bindE_def dense_Dims_def)
  next
    case False
    then have lag0: "lag = 0" using assms by linarith
    have "0 < ?n - ?k + 1" using rpos by linarith
    from mat_NewDense_ok [OF this, of 1] obtain d0 where
      d0: "mat_NewDense (?n - ?k + 1) 1 = Inr d0" and wf0: "wf_dense d0" and
      r0: "Rows d0 = ?r" and c0: "Cols d0 = 1"
      by auto
    from dense_SetCol_ok [OF wf0, of 0 ?xt1] c0 r0 lxt1 obtain d1 where
      d1: "dense_SetCol d0 0 ?xt1 = Inr d1" and wf1: "wf_dense d1" and
      r1: "Rows d1 = ?r" and c1: "Cols d1 = 1" and
      e1: "mat_Col d1 0 = Inr ?xt1"
      by auto
    show ?thesis using False d0 d1 wf1 r1 c1 e1 lag0 by (simp add: bindE_def)
  qed
  then obtain X where
    X: "(if ?k > 1 then
               bindE (view z 0 1 ?r (?k - 1)) (\<lambda>yt1.
               bindE (mat_NewDense (?n - ?k + 1) ?k) (\<lambda>design.
               bindE (dense_SetCol design 0 ?xt1) (\<lambda>design.
               Run_cols design yt1 (snd (dense_Dims yt1)) 0)))
             else
               bindE (mat_NewDense (?n - ?k + 1) 1) (\<lambda>design.
               dense_SetCol design 0 ?xt1)) = Inr X" and
    wfX: "wf_dense X" and rX: "Rows X = ?r" and cX: "Cols X = ?k" and
    x0: "mat_Col X 0 = Inr ?xt1" and
    xj: "\<forall>j. 1 \<le> j \<longrightarrow> j \<le> lag \<longrightarrow> mat_Col X j = mat_Col z j"
    by blast
  have dims: "dense_Dims z = (?r, ?k)" using rz cz by (simp add: dense_Dims_def)
  have xt1': "go_slice s (?k - 1) ?n = Inr ?xt1" using xt1 by simp
  have run: "Run_design s lag = Inr (X, ?resp)"
    unfolding Run_design_def Let_def
    by (simp only: y z zcol xt1' dims bindE_Inr prod.case X vec)
  have x0': "mat_Col X 0 = go_slice s lag ?n" using x0 xt1 by simp
  show ?thesis
    by (intro exI [of _ y] exI [of _ z] exI [of _ X] exI [of _ ?resp] conjI)
       (fact y ly z wfz rz cz zcol run wfX rX cX x0' xt1 xj)+
qed


text \<open>The definitions that evaluate \<open>Run\<close> and its parts on a concrete input.\<close>

lemma replicate_numeral_Cons: "replicate (numeral k) x = x # replicate (pred_numeral k) x"
  by (simp add: numeral_eq_Suc)

lemmas run_eval =
  Run_def Run_statistic_def Run_design_def Let_def bindE_def stat_Mean_def floats_Sum_def
  float64_add_def float64_sub_def float64_div_def float64_of_int_def float64_round_small diff_def
  make_slice_def diff_loop.simps go_index_def go_store_def go_slice_def laggedMatrix_def
  laggedMatrix_cols.simps laggedMatrix_rows.simps mat_NewDense_def dense_Set_def mat_Col_def
  dense_SetCol_def dense_Dims_def view_def dense_Slice_def Run_cols.simps mat_NewVecDense_def
  column_ridge_def dot_def LPenalty_def upt_conv_Cons replicate_numeral_Cons

text \<open>
  C2. For every run with \<open>k = lag + 1 > 1\<close> on a series of more than \<open>lag + 1\<close>
  elements, column \<open>1 + j\<close> of the design matrix is column \<open>1 + j\<close> of the lag matrix
  of the differenced series, for \<open>j = 0, ..., k - 2\<close>, and not its column \<open>j\<close>: the
  view that \<open>Run\<close> copies from starts at column \<open>1\<close> of the lag matrix, whose column
  \<open>0\<close> is the response. Each such column has \<open>len(series) - 1 - lag\<close> entries.
\<close>

theorem design_lagged_columns:
  assumes "1 \<le> lag" "lag + 1 < int (length s)" "0 \<le> j" "j \<le> lag - 1"
  shows "design_col s lag (1 + j) = lagged_col s lag (1 + j) \<and>
         (\<exists>col. design_col s lag (1 + j) = Inr col \<and>
                int (length col) = int (length s) - 1 - lag)"
proof -
  have "0 \<le> lag" using assms(1) by simp
  from Run_design_ok [OF this assms(2)] obtain y z X resp where
    y: "diff s = Inr y" and z: "laggedMatrix y (lag + 1) = Inr z" and
    rz: "Rows z = int (length s) - 1 - lag" and cz: "Cols z = lag + 1" and
    run: "Run_design s lag = Inr (X, resp)" and
    xj: "\<forall>j. 1 \<le> j \<longrightarrow> j \<le> lag \<longrightarrow> mat_Col X j = mat_Col z j"
    by blast
  have d: "design_col s lag (1 + j) = mat_Col X (1 + j)"
    by (simp add: design_col_def run bindE_Inr)
  have l: "lagged_col s lag (1 + j) = mat_Col z (1 + j)"
    by (simp add: lagged_col_def y z bindE_Inr)
  have eq: "mat_Col X (1 + j) = mat_Col z (1 + j)" using xj assms(3,4) by simp
  let ?col = "map (\<lambda>i. Elems z ! i ! nat (1 + j)) [0 ..< nat (Rows z)]"
  have c: "mat_Col z (1 + j) = Inr ?col" using cz assms(3,4) by (simp add: mat_Col_def)
  have "int (length ?col) = int (length s) - 1 - lag" using rz assms(2) by simp
  with d l eq c show ?thesis by simp
qed

theorem design_lagged_columns_witness:
  "(1::int) \<le> 1 \<and> (1::int) + 1 < int (length [1, - 2, 2, - 1 :: float64]) \<and> (0::int) \<le> 1 - 1 \<and>
   design_col [1, - 2, 2, - 1] 1 1 = Inr [- 3, 4] \<and>
   lagged_col [1, - 2, 2, - 1] 1 1 = Inr [- 3, 4]"
proof -
  have h1: "(1::int) \<le> 1" and h3: "(0::int) \<le> 0" and h4: "(0::int) \<le> 1 - 1" by simp_all
  have h2: "(1::int) + 1 < int (length [1, - 2, 2, - 1 :: float64])" by simp
  have d: "design_col [1, - 2, 2, - 1] 1 (1 + 0) = Inr [- 3, 4]"
    by (simp add: design_col_def run_eval)
  from design_lagged_columns [OF h1 h2 h3 h4]
  have "design_col [1, - 2, 2, - 1] 1 (1 + 0) = lagged_col [1, - 2, 2, - 1] 1 (1 + 0)" by blast
  with d h2 show ?thesis by simp
qed

text \<open>
  On the series \<open>[1, -2, 2, -1]\<close>, of mean zero, with \<open>lag = 1\<close>: column \<open>1\<close> of the
  design matrix is \<open>[-3, 4]\<close>, and column \<open>0\<close> of the lag matrix is \<open>[4, -3]\<close>.
\<close>

theorem design_column_not_lag_matrix_column:
  "design_col [1, - 2, 2, - 1] 1 (1 + 0) = Inr [- 3, 4] \<and>
   lagged_col [1, - 2, 2, - 1] 1 0 = Inr [4, - 3] \<and>
   design_col [1, - 2, 2, - 1] 1 (1 + 0) \<noteq> lagged_col [1, - 2, 2, - 1] 1 0"
  by (simp add: design_col_def lagged_col_def run_eval)


subsection \<open>\<open>Run\<close>\<close>

lemma Run_center_map: "Run_center mean s = map (\<lambda>v. float64_sub v mean) s"
  by (induction s) simp_all

lemma Run_Series:
  "Series (fst (Run rr adf)) =
     (if stat_Mean (Series adf) \<noteq> 0
      then map (\<lambda>v. float64_sub v (stat_Mean (Series adf))) (Series adf)
      else Series adf)"
  by (simp add: Run_def Let_def Run_center_map split: sum.split)

lemma Run_length: "length (Series (fst (Run rr adf))) = length (Series adf)"
  by (simp add: Run_Series)

lemma Run_eq:
  assumes "s = Series (fst (Run rr adf))"
  shows "Run rr adf =
     (case Run_statistic rr s (Lag adf) of
        Inl e \<Rightarrow> (adf\<lparr>Series := s\<rparr>, Some e)
      | Inr t \<Rightarrow> (adf\<lparr>Series := s, Statistic := t\<rparr>, None))"
  unfolding assms Run_Series
  by (simp add: Run_def Let_def Run_center_map split: sum.split)

lemma Run_centered:
  assumes "stat_Mean (Series a) = 0"
  shows "Run rr a =
     (case Run_statistic rr (Series a) (Lag a) of
        Inl e \<Rightarrow> (a, Some e) | Inr t \<Rightarrow> (a\<lparr>Statistic := t\<rparr>, None))"
  using assms by (simp add: Run_def Let_def split: sum.split)

text \<open>
  C7. \<open>Run\<close> computes the arithmetic mean of the stored series, in \<open>float64\<close>
  arithmetic, and leaves, in the field \<open>Series\<close>, the original series minus that
  mean, element by element: by the centering loop when the mean is not zero, and by
  leaving the series as it is when the mean is exactly zero (a double minus zero is
  that double). This holds for every instance, also when \<open>Run\<close> panics later.
\<close>

theorem Run_centering:
  "stat_Mean (Series adf) =
     float64_div (floats_Sum (Series adf)) (float64_of_int (int (length (Series adf)))) \<and>
   (list_all is_float64 (Series adf) \<longrightarrow>
      Series (fst (Run rr adf)) =
        map (\<lambda>v. float64_sub v (stat_Mean (Series adf))) (Series adf)) \<and>
   (stat_Mean (Series adf) \<noteq> 0 \<longrightarrow>
      Series (fst (Run rr adf)) = Run_center (stat_Mean (Series adf)) (Series adf) \<and>
      Series (fst (Run rr adf)) =
        map (\<lambda>v. float64_sub v (stat_Mean (Series adf))) (Series adf)) \<and>
   (stat_Mean (Series adf) = 0 \<longrightarrow> Series (fst (Run rr adf)) = Series adf)"
proof -
  have "map (\<lambda>v. float64_sub v 0) s = s" if "list_all is_float64 s" for s
    using that by (induction s) (simp_all add: is_float64_sub_0)
  then show ?thesis
    by (simp add: Run_Series Run_center_map) (simp add: stat_Mean_def)
qed

theorem Run_centering_witness:
  "list_all is_float64 [1, 2, 4, 8] \<and> stat_Mean [1, 2, 4, 8] \<noteq> 0 \<and>
   Series (fst (Run column_ridge \<lparr>Series = [1, 2, 4, 8], PValueThreshold = - (345 / 100),
                                   Statistic = 0, Lag = 1\<rparr>)) =
     [- (11 / 4), - (7 / 4), 1 / 4, 17 / 4] \<and>
   list_all is_float64 [- 1, 0, 1] \<and> stat_Mean [- 1, 0, 1] = 0 \<and>
   Series (fst (Run column_ridge \<lparr>Series = [- 1, 0, 1], PValueThreshold = - (345 / 100),
                                   Statistic = 0, Lag = 0\<rparr>)) =
     [- 1, 0, 1]"
proof -
  let ?a = "\<lparr>Series = [1, 2, 4, 8], PValueThreshold = - (345 / 100), Statistic = 0, Lag = 1\<rparr>"
  let ?b = "\<lparr>Series = [- 1, 0, 1], PValueThreshold = - (345 / 100), Statistic = 0, Lag = 0\<rparr>"
  have fa: "list_all is_float64 (Series ?a)" and fb: "list_all is_float64 (Series ?b)"
    by (simp_all add: is_float64_def float64_round_small)
  have ma: "stat_Mean (Series ?a) = 15 / 4" and mb: "stat_Mean (Series ?b) = 0"
    by (simp_all add: stat_Mean_def floats_Sum_def float64_add_def float64_div_def
        float64_of_int_def float64_round_small)
  from Run_centering [of ?a column_ridge]
  have "stat_Mean (Series ?a) \<noteq> 0 \<longrightarrow>
        Series (fst (Run column_ridge ?a)) = Run_center (stat_Mean (Series ?a)) (Series ?a)"
    by blast
  then have "Series (fst (Run column_ridge ?a)) = Run_center (15 / 4) (Series ?a)"
    unfolding ma by simp
  then have a: "Series (fst (Run column_ridge ?a)) = [- (11 / 4), - (7 / 4), 1 / 4, 17 / 4]"
    by (simp add: float64_sub_def float64_round_small)
  from Run_centering [of ?b column_ridge]
  have "list_all is_float64 (Series ?b) \<longrightarrow>
        Series (fst (Run column_ridge ?b)) =
          map (\<lambda>v. float64_sub v (stat_Mean (Series ?b))) (Series ?b)"
    by blast
  with fb have "Series (fst (Run column_ridge ?b)) = map (\<lambda>v. float64_sub v 0) (Series ?b)"
    unfolding mb by blast
  then have b: "Series (fst (Run column_ridge ?b)) = [- 1, 0, 1]"
    by (simp add: float64_sub_def float64_round_small)
  from a b ma mb fa fb show ?thesis by simp
qed

text \<open>
  C3. \<open>Run\<close> returns no value and changes two fields of the instance, not one:
  \<open>Statistic\<close>, and \<open>Series\<close>, which it replaces by the mean-centered series (the
  same series when its mean is zero). The fields \<open>PValueThreshold\<close> and \<open>Lag\<close> are
  unchanged.
\<close>

theorem Run_frame:
  "PValueThreshold (fst (Run rr adf)) = PValueThreshold adf \<and>
   Lag (fst (Run rr adf)) = Lag adf \<and>
   Series (fst (Run rr adf)) =
     (if stat_Mean (Series adf) = 0 then Series adf
      else map (\<lambda>v. float64_sub v (stat_Mean (Series adf))) (Series adf))"
  by (simp add: Run_def Let_def Run_center_map split: sum.split)

text \<open>
  On the series \<open>[1, 2, 4, 8]\<close> with \<open>lag = 1\<close>, \<open>Run\<close> ends without a panic and
  leaves another series in the field \<open>Series\<close>.
\<close>

theorem Run_changes_Series:
  "snd (Run column_ridge \<lparr>Series = [1, 2, 4, 8], PValueThreshold = - (345 / 100),
                          Statistic = 0, Lag = 1\<rparr>) = None \<and>
   Series (fst (Run column_ridge \<lparr>Series = [1, 2, 4, 8], PValueThreshold = - (345 / 100),
                                   Statistic = 0, Lag = 1\<rparr>)) =
     [- (11 / 4), - (7 / 4), 1 / 4, 17 / 4] \<and>
   Series (fst (Run column_ridge \<lparr>Series = [1, 2, 4, 8], PValueThreshold = - (345 / 100),
                                   Statistic = 0, Lag = 1\<rparr>)) \<noteq>
     Series \<lparr>Series = [1, 2, 4, 8], PValueThreshold = - (345 / 100), Statistic = 0, Lag = 1\<rparr>"
  by (simp add: run_eval)

text \<open>
  C1. For every instance with \<open>lag \<ge> 0\<close> and \<open>len(series) > lag + 1\<close>: with \<open>s\<close> the
  mean-centered series, \<open>n = len(s) - 1\<close>, \<open>y = diff(s)\<close>, \<open>k = lag + 1\<close> and
  \<open>z = laggedMatrix(y, k)\<close>, the response handed to the regression is column \<open>0\<close> of
  \<open>z\<close>; the design matrix has \<open>n - k + 1\<close> rows and \<open>k\<close> columns, its column \<open>0\<close> is
  \<open>s[k-1 : n]\<close> and its columns \<open>1, ..., k - 1\<close> are the columns \<open>1, ..., k - 1\<close> of
  \<open>z\<close>; and whenever the regression of the response on this design with penalty
  \<open>LPenalty = 0.0001\<close> returns coefficients and standard errors, \<open>Run\<close> ends without a
  panic and has set \<open>Statistic\<close> to the \<open>float64\<close> quotient
  \<open>coefficient[0] / standardError[0]\<close>.
\<close>

theorem Run_statistic_spec:
  assumes "0 \<le> Lag adf" "Lag adf + 1 < int (length (Series adf))"
  shows "\<exists>s y z X resp.
           s = (if stat_Mean (Series adf) = 0 then Series adf
                else map (\<lambda>v. float64_sub v (stat_Mean (Series adf))) (Series adf)) \<and>
           diff s = Inr y \<and>
           laggedMatrix y (Lag adf + 1) = Inr z \<and>
           mat_Col z 0 = Inr resp \<and>
           wf_dense X \<and>
           dense_Dims X = (int (length s) - 1 - (Lag adf + 1) + 1, Lag adf + 1) \<and>
           mat_Col X 0 = go_slice s (Lag adf + 1 - 1) (int (length s) - 1) \<and>
           go_slice s (Lag adf + 1 - 1) (int (length s) - 1) =
             Inr (take (nat (int (length s) - 1 - Lag adf)) (drop (nat (Lag adf)) s)) \<and>
           (\<forall>j. 1 \<le> j \<longrightarrow> j < Lag adf + 1 \<longrightarrow> mat_Col X j = mat_Col z j) \<and>
           LPenalty = 1 / 10000 \<and>
           (\<forall>beta sd. rr X resp LPenalty = Inr (beta, sd) \<longrightarrow> beta \<noteq> [] \<longrightarrow> sd \<noteq> [] \<longrightarrow>
              Run rr adf =
                (adf\<lparr>Series := s, Statistic := float64_div (beta ! 0) (sd ! 0)\<rparr>, None))"
proof -
  define s where "s = Series (fst (Run rr adf))"
  have s_eq: "s = (if stat_Mean (Series adf) = 0 then Series adf
                else map (\<lambda>v. float64_sub v (stat_Mean (Series adf))) (Series adf))"
    by (simp add: s_def Run_Series)
  have len: "Lag adf + 1 < int (length s)" using assms(2) by (simp add: s_def Run_length)
  from Run_design_ok [OF assms(1) len] obtain y z X resp where
    y: "diff s = Inr y" and z: "laggedMatrix y (Lag adf + 1) = Inr z" and
    resp: "mat_Col z 0 = Inr resp" and
    run: "Run_design s (Lag adf) = Inr (X, resp)" and wfX: "wf_dense X" and
    rX: "Rows X = int (length s) - 1 - Lag adf" and cX: "Cols X = Lag adf + 1" and
    x0: "mat_Col X 0 = go_slice s (Lag adf) (int (length s) - 1)" and
    sl: "go_slice s (Lag adf) (int (length s) - 1) =
           Inr (take (nat (int (length s) - 1 - Lag adf)) (drop (nat (Lag adf)) s))" and
    xj: "\<forall>j. 1 \<le> j \<longrightarrow> j \<le> Lag adf \<longrightarrow> mat_Col X j = mat_Col z j"
    by blast
  have dims: "dense_Dims X = (int (length s) - 1 - (Lag adf + 1) + 1, Lag adf + 1)"
    using rX cX by (simp add: dense_Dims_def)
  have x0': "mat_Col X 0 = go_slice s (Lag adf + 1 - 1) (int (length s) - 1)"
    using x0 by simp
  have sl': "go_slice s (Lag adf + 1 - 1) (int (length s) - 1) =
           Inr (take (nat (int (length s) - 1 - Lag adf)) (drop (nat (Lag adf)) s))"
    using sl by simp
  have xj': "\<forall>j. 1 \<le> j \<longrightarrow> j < Lag adf + 1 \<longrightarrow> mat_Col X j = mat_Col z j"
    using xj by simp
  have stat: "\<forall>beta sd. rr X resp LPenalty = Inr (beta, sd) \<longrightarrow> beta \<noteq> [] \<longrightarrow> sd \<noteq> [] \<longrightarrow>
              Run rr adf =
                (adf\<lparr>Series := s, Statistic := float64_div (beta ! 0) (sd ! 0)\<rparr>, None)"
  proof (intro allI impI)
    fix beta sd
    assume rr: "rr X resp LPenalty = Inr (beta, sd)" and "beta \<noteq> []" "sd \<noteq> []"
    then have "Run_statistic rr s (Lag adf) = Inr (float64_div (beta ! 0) (sd ! 0))"
      by (simp add: Run_statistic_def run bindE_Inr go_index_def)
    then show "Run rr adf =
                (adf\<lparr>Series := s, Statistic := float64_div (beta ! 0) (sd ! 0)\<rparr>, None)"
      by (simp add: Run_eq [OF s_def])
  qed
  have pen: "LPenalty = 1 / 10000" by (simp add: LPenalty_def)
  show ?thesis
    by (intro exI [of _ s] exI [of _ y] exI [of _ z] exI [of _ X] exI [of _ resp] conjI)
       (fact s_eq y z resp wfX dims x0' sl' xj' pen stat)+
qed

theorem Run_statistic_spec_witness:
  "(0::int) \<le> 1 \<and> (1::int) + 1 < int (length [1, 2, 4, 8 :: float64]) \<and>
   Run column_ridge
      \<lparr>Series = [1, 2, 4, 8], PValueThreshold = - (345 / 100), Statistic = 0, Lag = 1\<rparr> =
   (\<lparr>Series = [- (11 / 4), - (7 / 4), 1 / 4, 17 / 4], PValueThreshold = - (345 / 100),
      Statistic = float64_div (- (25000 / 31251)) 1, Lag = 1\<rparr>, None)"
proof -
  let ?a = "\<lparr>Series = [1, 2, 4, 8], PValueThreshold = - (345 / 100), Statistic = 0, Lag = 1\<rparr>"
  have h1: "0 \<le> Lag ?a" and h2: "Lag ?a + 1 < int (length (Series ?a))" by simp_all
  have m: "stat_Mean [1, 2, 4, 8] = 15 / 4"
    by (simp add: stat_Mean_def floats_Sum_def float64_add_def float64_div_def
        float64_of_int_def float64_round_small)
  from Run_statistic_spec [OF h1 h2, of column_ridge] obtain X resp where
    "dense_Dims X = (2, 2)" "mat_Col X 0 = Inr [- (7 / 4), 1 / 4]"
    by (auto simp: m go_slice_def float64_sub_def float64_round_small)
  moreover have "Run column_ridge ?a =
      (\<lparr>Series = [- (11 / 4), - (7 / 4), 1 / 4, 17 / 4], PValueThreshold = - (345 / 100),
         Statistic = float64_div (- (25000 / 31251)) 1, Lag = 1\<rparr>, None)"
    by (simp add: run_eval)
  ultimately show ?thesis by simp
qed

text \<open>
  C8. For every instance with \<open>lag \<ge> 0\<close> and \<open>len(series) - 1 > lag\<close>, every step of
  \<open>Run\<close> up to the regression returns: the difference, the lag matrix (its
  allocation, its index accesses and its \<open>Set\<close> calls), the column \<open>0\<close> of the lag
  matrix, the slice \<open>series[k-1 : n]\<close>, and the allocation and the column copies of the
  design matrix. \<open>Run\<close> as a whole then ends without a panic whenever the regression
  returns a non-empty coefficient vector and a non-empty standard-error vector.
\<close>

theorem Run_total:
  assumes "0 \<le> Lag adf" "Lag adf < int (length (Series adf)) - 1"
  shows "\<exists>y z zcol1 xt1 design.
           diff (Series (fst (Run rr adf))) = Inr y \<and>
           laggedMatrix y (Lag adf + 1) = Inr z \<and>
           mat_Col z 0 = Inr zcol1 \<and>
           go_slice (Series (fst (Run rr adf))) (Lag adf + 1 - 1)
             (int (length (Series (fst (Run rr adf)))) - 1) = Inr xt1 \<and>
           Run_design (Series (fst (Run rr adf))) (Lag adf) = Inr (design, zcol1) \<and>
           (\<forall>beta sd. rr design zcol1 LPenalty = Inr (beta, sd) \<longrightarrow> beta \<noteq> [] \<longrightarrow> sd \<noteq> [] \<longrightarrow>
              snd (Run rr adf) = None)"
proof -
  define s where "s = Series (fst (Run rr adf))"
  have len: "Lag adf + 1 < int (length s)" using assms(2) by (simp add: s_def Run_length)
  from Run_design_ok [OF assms(1) len] obtain y z X resp where
    y: "diff s = Inr y" and z: "laggedMatrix y (Lag adf + 1) = Inr z" and
    resp: "mat_Col z 0 = Inr resp" and
    run: "Run_design s (Lag adf) = Inr (X, resp)" and
    sl: "go_slice s (Lag adf) (int (length s) - 1) =
           Inr (take (nat (int (length s) - 1 - Lag adf)) (drop (nat (Lag adf)) s))"
    by blast
  have sl': "go_slice s (Lag adf + 1 - 1) (int (length s) - 1) =
           Inr (take (nat (int (length s) - 1 - Lag adf)) (drop (nat (Lag adf)) s))"
    using sl by simp
  have "snd (Run rr adf) = None"
    if "rr X resp LPenalty = Inr (beta, sd)" "beta \<noteq> []" "sd \<noteq> []" for beta sd
  proof -
    from that have "Run_statistic rr s (Lag adf) = Inr (float64_div (beta ! 0) (sd ! 0))"
      by (simp add: Run_statistic_def run bindE_Inr go_index_def)
    then show ?thesis by (simp add: Run_eq [OF s_def])
  qed
  then have tot: "\<forall>beta sd. rr X resp LPenalty = Inr (beta, sd) \<longrightarrow> beta \<noteq> [] \<longrightarrow> sd \<noteq> [] \<longrightarrow>
              snd (Run rr adf) = None"
    by blast
  show ?thesis
    unfolding s_def [symmetric]
    by (intro exI [of _ y] exI [of _ z] exI [of _ resp] exI [of _ X] conjI exI)
       (fact y z resp sl' run tot)+
qed

theorem Run_total_witness:
  "(0::int) \<le> 0 \<and> (0::int) < int (length [1, 2, 4, 8 :: float64]) - 1 \<and>
   Run_design [- (11 / 4), - (7 / 4), 1 / 4, 17 / 4] 0 =
     Inr (\<lparr>Rows = 3, Cols = 1, Elems = [[- (11 / 4)], [- (7 / 4)], [1 / 4]]\<rparr>, [1, 2, 4]) \<and>
   snd (Run column_ridge
      \<lparr>Series = [1, 2, 4, 8], PValueThreshold = - (345 / 100), Statistic = 0, Lag = 0\<rparr>) = None"
proof -
  let ?a = "\<lparr>Series = [1, 2, 4, 8], PValueThreshold = - (345 / 100), Statistic = 0, Lag = 0\<rparr>"
  have h1: "0 \<le> Lag ?a" and h2: "Lag ?a < int (length (Series ?a)) - 1" by simp_all
  have d: "Run_design [- (11 / 4), - (7 / 4), 1 / 4, 17 / 4] 0 =
     Inr (\<lparr>Rows = 3, Cols = 1, Elems = [[- (11 / 4)], [- (7 / 4)], [1 / 4]]\<rparr>, [1, 2, 4])"
    by (simp add: run_eval)
  have m: "stat_Mean [1, 2, 4, 8] = 15 / 4"
    by (simp add: stat_Mean_def floats_Sum_def float64_add_def float64_div_def
        float64_of_int_def float64_round_small)
  have s: "Series (fst (Run column_ridge ?a)) = [- (11 / 4), - (7 / 4), 1 / 4, 17 / 4]"
    by (simp add: Run_Series m float64_sub_def float64_round_small)
  have r: "column_ridge \<lparr>Rows = 3, Cols = 1, Elems = [[- (11 / 4)], [- (7 / 4)], [1 / 4]]\<rparr>
             [1, 2, 4] LPenalty = Inr ([- (1875 / 3817)], [1])"
    by (simp add: run_eval)
  from Run_total [OF h1 h2, of column_ridge] d s r
  have "snd (Run column_ridge ?a) = None" by auto
  with d show ?thesis by simp
qed

text \<open>
  C10. For every instance with \<open>len(series) - 1 > lag \<ge> 0\<close> whose first \<open>Run\<close> leaves
  a series of \<open>float64\<close> mean exactly zero, running \<open>Run\<close> a second time leaves the
  instance as the first run left it, with the same outcome: the second run does not
  change the series, and the statistic is computed again from the same series and
  lag. The mean of a centered series is zero in exact arithmetic; in \<open>float64\<close>
  arithmetic it need not be, and then the second run centers the series again.
\<close>

theorem Run_twice_centered:
  assumes "0 \<le> Lag adf" "Lag adf < int (length (Series adf)) - 1"
    and "stat_Mean (Series (fst (Run rr adf))) = 0"
  shows "Run rr (fst (Run rr adf)) = Run rr adf"
proof -
  define s where "s = Series (fst (Run rr adf))"
  have m0: "stat_Mean s = 0" using assms(3) by (simp add: s_def)
  show ?thesis
  proof (cases "Run_statistic rr s (Lag adf)")
    case (Inl e)
    then have 1: "Run rr adf = (adf\<lparr>Series := s\<rparr>, Some e)" by (simp add: Run_eq [OF s_def])
    have "Run rr (adf\<lparr>Series := s\<rparr>) = (adf\<lparr>Series := s\<rparr>, Some e)"
      using m0 Inl by (subst Run_centered) simp_all
    with 1 show ?thesis by simp
  next
    case (Inr t)
    then have 1: "Run rr adf = (adf\<lparr>Series := s, Statistic := t\<rparr>, None)"
      by (simp add: Run_eq [OF s_def])
    have "Run rr (adf\<lparr>Series := s, Statistic := t\<rparr>) = (adf\<lparr>Series := s, Statistic := t\<rparr>, None)"
      using m0 Inr by (subst Run_centered) simp_all
    with 1 show ?thesis by simp
  qed
qed

theorem Run_twice_centered_witness:
  "(0::int) \<le> 0 \<and> (0::int) < int (length [1, 2, 3 :: float64]) - 1 \<and>
   Series (fst (Run column_ridge
      \<lparr>Series = [1, 2, 3], PValueThreshold = - (345 / 100), Statistic = 0, Lag = 0\<rparr>)) =
     [- 1, 0, 1] \<and>
   stat_Mean [- 1, 0, 1] = 0 \<and>
   Run column_ridge (fst (Run column_ridge
      \<lparr>Series = [1, 2, 3], PValueThreshold = - (345 / 100), Statistic = 0, Lag = 0\<rparr>)) =
   (\<lparr>Series = [- 1, 0, 1], PValueThreshold = - (345 / 100),
      Statistic = float64_div (- (10000 / 10001)) 1, Lag = 0\<rparr>, None)"
proof -
  let ?a = "\<lparr>Series = [1, 2, 3], PValueThreshold = - (345 / 100), Statistic = 0, Lag = 0\<rparr>"
  have h1: "0 \<le> Lag ?a" and h2: "Lag ?a < int (length (Series ?a)) - 1" by simp_all
  have run: "Run column_ridge ?a =
      (\<lparr>Series = [- 1, 0, 1], PValueThreshold = - (345 / 100),
         Statistic = float64_div (- (10000 / 10001)) 1, Lag = 0\<rparr>, None)"
    by (simp add: run_eval)
  then have s: "Series (fst (Run column_ridge ?a)) = [- 1, 0, 1]" by simp
  have m: "stat_Mean [- 1, 0, 1] = 0" by (simp add: run_eval)
  then have h3: "stat_Mean (Series (fst (Run column_ridge ?a))) = 0" by (simp only: s)
  from Run_twice_centered [OF h1 h2 h3] run s m show ?thesis by simp
qed

text \<open>
  On the series \<open>[1, 2, 4]\<close> with \<open>lag = 0\<close>: the mean is the double nearest \<open>7/3\<close>,
  the first run leaves a series whose sum is \<open>-2 ^ -51\<close> (in any order of summation:
  every partial sum is exact) and whose mean is the double nearest \<open>-2 ^ -51 / 3\<close>,
  about \<open>-1.48e-16\<close>, and the second run changes every element of the series.
\<close>

theorem Run_twice_changes_Series:
  "(0::int) \<le> 0 \<and> (0::int) < int (length [1, 2, 4 :: float64]) - 1 \<and>
   Series (fst (Run column_ridge
      \<lparr>Series = [1, 2, 4], PValueThreshold = - (345 / 100), Statistic = 0, Lag = 0\<rparr>)) =
     [- (3002399751580331 / 2251799813685248), - (750599937895083 / 2251799813685248),
      3752999689475413 / 2251799813685248] \<and>
   stat_Mean [- (3002399751580331 / 2251799813685248), - (750599937895083 / 2251799813685248),
      3752999689475413 / 2251799813685248] =
     - (6004799503160661 / 40564819207303340847894502572032) \<and>
   Series (fst (Run column_ridge (fst (Run column_ridge
      \<lparr>Series = [1, 2, 4], PValueThreshold = - (345 / 100), Statistic = 0, Lag = 0\<rparr>)))) =
     [- (6004799503160661 / 4503599627370496), - (6004799503160661 / 18014398509481984),
      7505999378950827 / 4503599627370496] \<and>
   Run column_ridge (fst (Run column_ridge
      \<lparr>Series = [1, 2, 4], PValueThreshold = - (345 / 100), Statistic = 0, Lag = 0\<rparr>)) \<noteq>
   Run column_ridge
      \<lparr>Series = [1, 2, 4], PValueThreshold = - (345 / 100), Statistic = 0, Lag = 0\<rparr>"
proof -
  let ?a = "\<lparr>Series = [1, 2, 4], PValueThreshold = - (345 / 100), Statistic = 0, Lag = 0\<rparr>"
  let ?s1 = "[- (3002399751580331 / 2251799813685248), - (750599937895083 / 2251799813685248),
      3752999689475413 / 2251799813685248 :: float64]"
  let ?s2 = "[- (6004799503160661 / 4503599627370496), - (6004799503160661 / 18014398509481984),
      7505999378950827 / 4503599627370496 :: float64]"
  have exact: "float64_round x = x"
    if "x * 2251799813685248 \<in> \<int>" "\<bar>x\<bar> * 2251799813685248 < 9007199254740992" for x
    using float64_round_exact [of x 51] that by simp
  have q1: "float64_round (7 / 3) = 5254199565265579 / 2251799813685248"
    by (subst float64_round_at [where e = 1]) (simp_all add: round_even_def)
  have m1: "stat_Mean [1, 2, 4] = 5254199565265579 / 2251799813685248"
    by (simp add: stat_Mean_def floats_Sum_def float64_add_def float64_div_def
        float64_of_int_def float64_round_small q1)
  have s1: "Series (fst (Run column_ridge ?a)) = ?s1"
    by (simp add: Run_Series m1 float64_sub_def exact)
  have q2: "float64_round (- (1 / 6755399441055744)) =
            - (6004799503160661 / 40564819207303340847894502572032)"
    by (subst float64_round_at [where e = "- 53"]) (simp_all add: round_even_def)
  have m2: "stat_Mean ?s1 = - (6004799503160661 / 40564819207303340847894502572032)"
    by (simp add: stat_Mean_def floats_Sum_def float64_add_def float64_div_def
        float64_of_int_def float64_round_small exact q2)
  have e1: "float64_sub (- (3002399751580331 / 2251799813685248))
              (- (6004799503160661 / 40564819207303340847894502572032)) =
            - (6004799503160661 / 4503599627370496)"
    unfolding float64_sub_def
    by (subst float64_round_at [where e = 0]) (simp_all add: round_even_def)
  have e2: "float64_sub (- (750599937895083 / 2251799813685248))
              (- (6004799503160661 / 40564819207303340847894502572032)) =
            - (6004799503160661 / 18014398509481984)"
    unfolding float64_sub_def
    by (subst float64_round_at [where e = "- 2"]) (simp_all add: round_even_def)
  have e3: "float64_sub (3752999689475413 / 2251799813685248)
              (- (6004799503160661 / 40564819207303340847894502572032)) =
            7505999378950827 / 4503599627370496"
    unfolding float64_sub_def
    by (subst float64_round_at [where e = 0]) (simp_all add: round_even_def)
  have "Series (fst (Run column_ridge (fst (Run column_ridge ?a)))) =
        (if stat_Mean ?s1 \<noteq> 0 then map (\<lambda>v. float64_sub v (stat_Mean ?s1)) ?s1 else ?s1)"
    by (simp only: Run_Series [of column_ridge "fst (Run column_ridge ?a)"] s1)
  then have s2: "Series (fst (Run column_ridge (fst (Run column_ridge ?a)))) = ?s2"
    unfolding m2 using e1 e2 e3 by simp
  have "Run column_ridge (fst (Run column_ridge ?a)) \<noteq> Run column_ridge ?a"
  proof
    assume "Run column_ridge (fst (Run column_ridge ?a)) = Run column_ridge ?a"
    then have "Series (fst (Run column_ridge (fst (Run column_ridge ?a)))) =
               Series (fst (Run column_ridge ?a))"
      by simp
    then show False unfolding s1 s2 by simp
  qed
  with s1 m2 s2 show ?thesis by simp
qed

subsection \<open>\<open>NewADF\<close> and \<open>IsStationary\<close>\<close>

lemma cbrt_down_le: "cbrt_down n k ^ 3 \<le> n"
  by (induction k) simp_all

lemma cbrt_down_gt: "n < (k + 1) ^ 3 \<Longrightarrow> n < (cbrt_down n k + 1) ^ 3"
  by (induction k) (simp_all add: not_le)

lemma floor_cbrt: "\<lfloor>root 3 (real n)\<rfloor> = int (cbrt_down n n)"
proof -
  let ?r = "cbrt_down n n"
  have "n + 1 \<le> (n + 1) ^ 3" by (rule self_le_power) simp_all
  then have "n < (n + 1) ^ 3" by linarith
  then have up: "n < (?r + 1) ^ 3" by (rule cbrt_down_gt)
  have lo: "?r ^ 3 \<le> n" by (rule cbrt_down_le)
  have "real ?r = root 3 (real ?r ^ 3)" by (simp add: real_root_power_cancel)
  also have "\<dots> \<le> root 3 (real n)"
  proof -
    have "real ?r ^ 3 \<le> real n" using lo by (metis of_nat_le_iff of_nat_power)
    then show ?thesis by simp
  qed
  finally have 1: "real_of_int (int ?r) \<le> root 3 (real n)" by simp
  have "root 3 (real n) < root 3 (real (?r + 1) ^ 3)"
  proof -
    have "real n < real (?r + 1) ^ 3" using up by (metis of_nat_less_iff of_nat_power)
    then show ?thesis by simp
  qed
  also have "\<dots> = real (?r + 1)" by (simp add: real_root_power_cancel)
  finally have 2: "root 3 (real n) < real_of_int (int ?r) + 1" by simp
  from 1 2 show ?thesis by (rule floor_unique)
qed

lemma NewADF_code [code]:
  "NewADF series pvalue lag =
     (let pvalue = (if pvalue = 0 then DefaultPValue else pvalue);
          lag = (if lag < 0 then int (cbrt_down (length series) (length series)) else lag);
          newSeries = series
      in \<lparr>Series = newSeries, PValueThreshold = pvalue, Statistic = 0, Lag = lag\<rparr>)"
  by (simp add: NewADF_def floor_cbrt)

text \<open>
  C6. Constructing with threshold exactly \<open>0\<close> gives the threshold \<open>-3.45\<close>;
  constructing with a negative lag gives the lag \<open>floor(cbrt(len(series)))\<close>; any
  other threshold and any non-negative lag are stored as given; so the stored lag is
  never negative.
\<close>

theorem NewADF_defaults:
  "PValueThreshold (NewADF series 0 lag) = - (345 / 100) \<and>
   (pvalue \<noteq> 0 \<longrightarrow> PValueThreshold (NewADF series pvalue lag) = pvalue) \<and>
   (lag < 0 \<longrightarrow> Lag (NewADF series pvalue lag) = \<lfloor>root 3 (real (length series))\<rfloor>) \<and>
   (0 \<le> lag \<longrightarrow> Lag (NewADF series pvalue lag) = lag) \<and>
   0 \<le> Lag (NewADF series pvalue lag)"
proof -
  have "0 \<le> root 3 (real (length series))" by simp
  then have "0 \<le> \<lfloor>root 3 (real (length series))\<rfloor>" by simp
  then show ?thesis by (simp add: NewADF_def DefaultPValue_def)
qed

theorem NewADF_defaults_witness:
  "(- 1 :: int) < 0 \<and>
   NewADF [1, 2, 3, 4, 5, 6, 7, 8, 9] 0 (- 1) =
     \<lparr>Series = [1, 2, 3, 4, 5, 6, 7, 8, 9], PValueThreshold = - (345 / 100), Statistic = 0,
      Lag = 2\<rparr> \<and>
   (1 / 2 :: float64) \<noteq> 0 \<and> (0 :: int) \<le> 3 \<and>
   NewADF [1, 2, 3] (1 / 2) 3 =
     \<lparr>Series = [1, 2, 3], PValueThreshold = 1 / 2, Statistic = 0, Lag = 3\<rparr>"
proof -
  let ?xs = "[1, 2, 3, 4, 5, 6, 7, 8, 9 :: float64]"
  have "cbrt_down 9 9 = 2" by (simp add: eval_nat_numeral)
  with floor_cbrt [of 9] have c: "\<lfloor>root 3 (real (length ?xs))\<rfloor> = 2" by simp
  from NewADF_defaults [of ?xs "- 1" 0] c
  have p: "PValueThreshold (NewADF ?xs 0 (- 1)) = - (345 / 100)" and l: "Lag (NewADF ?xs 0 (- 1)) = 2"
    by simp_all
  have a: "NewADF ?xs 0 (- 1) =
     \<lparr>Series = ?xs, PValueThreshold = PValueThreshold (NewADF ?xs 0 (- 1)), Statistic = 0,
      Lag = Lag (NewADF ?xs 0 (- 1))\<rparr>"
    by (simp add: NewADF_def)
  from NewADF_defaults [of "[1, 2, 3]" 3 "1 / 2"]
  have q: "PValueThreshold (NewADF [1, 2, 3] (1 / 2) 3) = 1 / 2"
    and m: "Lag (NewADF [1, 2, 3] (1 / 2) 3) = 3"
    by simp_all
  have b: "NewADF [1, 2, 3] (1 / 2) 3 =
     \<lparr>Series = [1, 2, 3], PValueThreshold = PValueThreshold (NewADF [1, 2, 3] (1 / 2) 3),
      Statistic = 0, Lag = Lag (NewADF [1, 2, 3] (1 / 2) 3)\<rparr>"
    by (simp add: NewADF_def)
  show ?thesis using a b p l q m by simp
qed

text \<open>
  C9. \<open>IsStationary\<close> is true exactly when \<open>Statistic < PValueThreshold\<close>; it is
  false when the two are equal; and its result depends on no other field. It has a
  value receiver and assigns nothing, so it is a function of the instance alone.
\<close>

theorem IsStationary_spec:
  "(IsStationary adf \<longleftrightarrow> Statistic adf < PValueThreshold adf) \<and>
   (Statistic adf = PValueThreshold adf \<longrightarrow> \<not> IsStationary adf) \<and>
   (Statistic adf' = Statistic adf \<and> PValueThreshold adf' = PValueThreshold adf \<longrightarrow>
      IsStationary adf' = IsStationary adf)"
  by (simp add: IsStationary_def)

theorem IsStationary_spec_witness:
  "\<not> IsStationary \<lparr>Series = [1, 2], PValueThreshold = - (345 / 100),
                    Statistic = - (345 / 100), Lag = 0\<rparr> \<and>
   IsStationary \<lparr>Series = [], PValueThreshold = - (345 / 100), Statistic = - 4, Lag = 7\<rparr> \<and>
   IsStationary \<lparr>Series = [3], PValueThreshold = - (345 / 100), Statistic = - 4, Lag = 1\<rparr>"
proof -
  let ?a = "\<lparr>Series = [1, 2], PValueThreshold = - (345 / 100), Statistic = - (345 / 100), Lag = 0\<rparr>"
  let ?b = "\<lparr>Series = [], PValueThreshold = - (345 / 100), Statistic = - 4, Lag = 7\<rparr>"
  let ?c = "\<lparr>Series = [3], PValueThreshold = - (345 / 100), Statistic = - 4, Lag = 1\<rparr>"
  from IsStationary_spec [of ?a ?a] have a: "\<not> IsStationary ?a" by simp
  from IsStationary_spec [of ?b ?c] have b: "IsStationary ?b" and bc: "IsStationary ?c = IsStationary ?b"
    by simp_all
  from a b bc show ?thesis by simp
qed

end
